theory Spec2Isabelle
  imports Main "HOL-Library.AList" "HOL-Library.Multiset"
begin

section \<open>Property names and keys\<close>

text \<open>\<open>key.split('.')\<close>\<close>

fun split_dot :: "string \<Rightarrow> string list" where
  "split_dot [] = [[]]"
| "split_dot (c # cs) =
     (if c = CHR ''.'' then [] # split_dot cs
      else (case split_dot cs of [] \<Rightarrow> [[c]] | w # ws \<Rightarrow> (c # w) # ws))"

text \<open>
  The observer keeps its state and its subscribers in plain objects, and the room of a
  packet is a plain object. A plain object inherits the properties of
  \<open>Object.prototype\<close>, whose names are listed here; reading or writing one of them does
  not reach the object's own properties. Every other string names an own property or
  nothing. The model keeps to those: a \<open>name\<close> is a string that is not the name of a
  property of \<open>Object.prototype\<close>, and with names a plain object is the association list
  of its own properties, in the order of insertion.
\<close>

definition protoNames :: "string list" where
  "protoNames =
     [''constructor'', ''__defineGetter__'', ''__defineSetter__'', ''hasOwnProperty'',
      ''__lookupGetter__'', ''__lookupSetter__'', ''isPrototypeOf'', ''propertyIsEnumerable'',
      ''toString'', ''valueOf'', ''__proto__'', ''toLocaleString'']"

typedef name = "{s :: string. s \<notin> set protoNames}"
  by (rule exI[of _ "[]"]) (simp add: protoNames_def)

setup_lifting type_definition_name

instantiation name :: equal
begin

lift_definition equal_name :: "name \<Rightarrow> name \<Rightarrow> bool" is "\<lambda>a b. a = b" .

instance
  by standard (transfer, simp)

end

text \<open>
  A \<open>key\<close> is what the observer is called with: a string of which the first part and,
  if there is a dot, the second part are names. These are the parts \<open>set\<close> uses.
\<close>

definition plainKey :: "string \<Rightarrow> bool" where
  "plainKey s =
     (hd (split_dot s) \<notin> set protoNames \<and>
      (1 < length (split_dot s) \<longrightarrow> split_dot s ! 1 \<notin> set protoNames))"

typedef key = "{s :: string. plainKey s}"
  by (rule exI[of _ "[]"]) (simp add: plainKey_def protoNames_def)

setup_lifting type_definition_key

instantiation key :: equal
begin

lift_definition equal_key :: "key \<Rightarrow> key \<Rightarrow> bool" is "\<lambda>a b. a = b" .

instance
  by standard (transfer, simp)

end

text \<open>
  \<open>keys.length !== 1\<close>, \<open>keys[0]\<close> and \<open>keys[1]\<close> of \<open>keys = key.split('.')\<close>; the key itself
  as a property name (\<open>this.state[key]\<close>); and \<open>keys[0]\<close> as the key that \<open>set\<close> goes on
  with after \<open>key = keys[0]\<close>.
\<close>

lift_definition dotted :: "key \<Rightarrow> bool" is "\<lambda>s. length (split_dot s) \<noteq> 1" .

lift_definition part0 :: "key \<Rightarrow> name" is "\<lambda>s. hd (split_dot s)"
  by (simp add: plainKey_def)

lift_definition part1 :: "key \<Rightarrow> name" is
  "\<lambda>s. if 1 < length (split_dot s) then split_dot s ! 1 else []"
  by (simp add: plainKey_def protoNames_def)

lift_definition wholeName :: "key \<Rightarrow> name" is "\<lambda>s. s"
proof -
  fix s :: string
  assume p: "plainKey s"
  have one: "CHR ''.'' \<notin> set t \<Longrightarrow> split_dot t = [t]" for t
    by (induction t) auto
  show "s \<notin> set protoNames"
  proof (cases "CHR ''.'' \<in> set s")
    case True
    then show ?thesis by (auto simp: protoNames_def)
  next
    case False
    then show ?thesis using p one[of s] by (simp add: plainKey_def)
  qed
qed

lift_definition firstKey :: "key \<Rightarrow> key" is "\<lambda>s. hd (split_dot s)"
proof -
  fix s :: string
  assume p: "plainKey s"
  have one: "CHR ''.'' \<notin> set t \<Longrightarrow> split_dot t = [t]" for t
    by (induction t) auto
  have parts: "split_dot t \<noteq> [] \<and> (\<forall>w \<in> set (split_dot t). CHR ''.'' \<notin> set w)" for t
    by (induction t) (auto split: list.splits)
  have "CHR ''.'' \<notin> set (hd (split_dot s))"
    using parts[of s] by (cases "split_dot s") auto
  then have "split_dot (hd (split_dot s)) = [hd (split_dot s)]"
    by (rule one)
  then show "plainKey (hd (split_dot s))"
    using p by (simp add: plainKey_def)
qed

text \<open>The keys and names the scene uses.\<close>

lift_definition K_countdown :: key is "''countdown''"
  by (simp add: plainKey_def protoNames_def)

lift_definition K_baseScore :: key is "''baseScore''"
  by (simp add: plainKey_def protoNames_def)

lift_definition K_room :: key is "''room''"
  by (simp add: plainKey_def protoNames_def)

lift_definition K_ready :: key is "''ready''"
  by (simp add: plainKey_def protoNames_def)

lift_definition K_rob :: key is "''rob''"
  by (simp add: plainKey_def protoNames_def)

lift_definition K_room_multiple :: key is "''room.multiple''"
  by (simp add: plainKey_def protoNames_def)

lift_definition N_id :: name is "''id''"
  by (simp add: protoNames_def)

lift_definition N_origin :: name is "''origin''"
  by (simp add: protoNames_def)

lift_definition N_multiple :: name is "''multiple''"
  by (simp add: protoNames_def)

lift_definition N_landlord_uid :: name is "''landlord_uid''"
  by (simp add: protoNames_def)

lift_definition N_state :: name is "''state''"
  by (simp add: protoNames_def)

section \<open>JavaScript values\<close>

text \<open>
  The values that flow through the observer and the hands of the game scene: numbers
  (card ids, scores, multipliers), booleans, \<open>undefined\<close>, \<open>null\<close> and plain objects
  (the room description). Arrays are kept outside this type: the hands and the table
  cards are lists of values. What is thrown is a TypeError or, by a subscriber, any
  other exception.
\<close>

datatype error = TypeError | Exception nat

datatype val = VUndef | VNull | VNum int | VBool bool | VObj "(name \<times> val) list"

text \<open>\<open>obj[name]\<close>: a missing property reads as \<open>undefined\<close>.\<close>

definition getProp :: "(name \<times> val) list \<Rightarrow> name \<Rightarrow> val" where
  "getProp fs n = (case map_of fs n of None \<Rightarrow> VUndef | Some v \<Rightarrow> v)"

text \<open>
  \<open>target[name] = v\<close> in a module (strict mode): only an object takes the property;
  \<open>undefined\<close>, \<open>null\<close> and the primitives raise a TypeError.
\<close>

fun setProp :: "val \<Rightarrow> name \<Rightarrow> val \<Rightarrow> error + val" where
  "setProp (VObj fs) n v = Inr (VObj (AList.update n v fs))"
| "setProp _ n v = Inl TypeError"

section \<open>Observer\<close>

text \<open>
  A subscriber is whatever was passed as \<open>cb\<close>: a function, identified by a number, or a
  falsy value, which \<open>set\<close> skips (\<open>if (cb) cb(newVal)\<close>). What a function does when it
  is called is given by a table \<open>T\<close>: \<open>T f v\<close> is the exception that \<open>f\<close> throws on the
  value \<open>v\<close>, if it throws. A function does not call the observer itself; none of the
  scene does.
\<close>

datatype callback = Fn nat | Falsy

record observer =
  state :: "(name \<times> val) list"
  subscribers :: "(key \<times> callback list) list"

definition new_Observer :: observer where
  "new_Observer = \<lparr> state = [], subscribers = [] \<rparr>"

definition Observer_get :: "observer \<Rightarrow> key \<Rightarrow> val" where
  "Observer_get ob key = getProp (state ob) (wholeName key)"

text \<open>
  The \<open>forEach\<close> over the subscribers of a key: the calls \<open>cb(newVal)\<close> made, in order,
  and the exception that ended them, if one did. The call that throws is the last.
\<close>

fun invoke ::
  "(nat \<Rightarrow> val \<Rightarrow> error option) \<Rightarrow> callback list \<Rightarrow> val \<Rightarrow> (nat \<times> val) list \<times> error option"
where
  "invoke T [] v = ([], None)"
| "invoke T (Falsy # cbs) v = invoke T cbs v"
| "invoke T (Fn f # cbs) v =
     (case T f v of
        Some e \<Rightarrow> ([(f, v)], Some e)
      | None \<Rightarrow> (case invoke T cbs v of (out, r) \<Rightarrow> ((f, v) # out, r)))"

definition notify ::
  "(nat \<Rightarrow> val \<Rightarrow> error option) \<Rightarrow> observer \<Rightarrow> key \<Rightarrow> (nat \<times> val) list \<times> error option"
where
  "notify T ob key =
     (case map_of (subscribers ob) key of
        None \<Rightarrow> ([], None)
      | Some cbs \<Rightarrow> invoke T cbs (getProp (state ob) (wholeName key)))"

text \<open>
  \<open>Observer.set(key, val)\<close>: the observer afterwards, the subscriber calls made, and
  the exception thrown, if any. The value is stored before the subscribers are called,
  so it stays stored when one of them throws; the TypeError of the assignment to a
  property of something that is not an object leaves the observer as it was.
\<close>

definition Observer_set ::
  "(nat \<Rightarrow> val \<Rightarrow> error option) \<Rightarrow> observer \<Rightarrow> key \<Rightarrow> val \<Rightarrow>
     observer \<times> (nat \<times> val) list \<times> error option"
where
  "Observer_set T ob key v =
     (if key = K_countdown then (ob, [], None)
      else if \<not> dotted key then
        (let ob' = ob\<lparr>state := AList.update (wholeName key) v (state ob)\<rparr>
         in case notify T ob' key of (out, r) \<Rightarrow> (ob', out, r))
      else
        (case setProp (getProp (state ob) (part0 key)) (part1 key) v of
           Inl e \<Rightarrow> (ob, [], Some e)
         | Inr target \<Rightarrow>
             (let ob' = ob\<lparr>state := AList.update (part0 key) target (state ob)\<rparr>
              in case notify T ob' (firstKey key) of (out, r) \<Rightarrow> (ob', out, r))))"

definition Observer_subscribe :: "observer \<Rightarrow> key \<Rightarrow> callback \<Rightarrow> observer" where
  "Observer_subscribe ob key cb =
     (if key = K_countdown then ob
      else
        (case map_of (subscribers ob) key of
           Some cbs \<Rightarrow> ob\<lparr>subscribers := AList.update key (cbs @ [cb]) (subscribers ob)\<rparr>
         | None \<Rightarrow> ob\<lparr>subscribers := AList.update key [cb] (subscribers ob)\<rparr>))"

text \<open>
  \<open>Observer.unsubscribe(key, cb)\<close> calls \<open>indexOf\<close> on the subscriber table itself, which
  is a plain object and has no such method: for a key that has subscribers the call
  raises, for any other key it does nothing.
\<close>

definition Observer_unsubscribe :: "observer \<Rightarrow> key \<Rightarrow> callback \<Rightarrow> error + observer" where
  "Observer_unsubscribe ob key cb =
     (case map_of (subscribers ob) key of
        Some cbs \<Rightarrow> Inl TypeError
      | None \<Rightarrow> Inr ob)"

section \<open>Players\<close>

text \<open>
  The session data of a \<open>Player\<close> object, as the game scene reads and writes it: the
  identity (\<open>uid\<close>, display name), the hand \<open>pokerInHand\<close> and the landlord flag. The
  seat of a player is its index in \<open>Game.players\<close>.
\<close>

record player =
  uid :: int
  name :: string
  pokerInHand :: "val list"
  isLandlord :: bool

text \<open>
  Modelled from the spec: \<open>Player.updateInfo(uid, name)\<close> and \<open>Player.setLandlord()\<close> of
  \<open>player.mjs\<close> are not among the sources. The spec's Player is
  \<open>{id, displayName, seat, isLandlord}\<close>, populated on join and with \<open>isLandlord\<close> set
  once per match; the scene reads the identity back as \<open>players[i].uid\<close> and the flag as
  \<open>players[i].isLandlord\<close>.
\<close>

definition updateInfo :: "player \<Rightarrow> int \<Rightarrow> string \<Rightarrow> player" where
  "updateInfo p u n = p\<lparr>uid := u, name := n\<rparr>"

definition setLandlord :: "player \<Rightarrow> player" where
  "setLandlord p = p\<lparr>isLandlord := True\<rparr>"

text \<open>
  The other methods of \<open>player.mjs\<close> that work on the hand of a player, and the
  comparison function of \<open>rule.mjs\<close> that orders a play, are parameters of the model:
  each takes the seat of the player (the local player and the two peers are created
  differently) and the hand, and returns the hand the player holds afterwards.
  \<^item> \<open>createPlay(seat, game)\<close> makes the player of a seat;
  \<^item> \<open>playerDealPoker\<close> is \<open>Player.dealPoker()\<close>, which lays out a dealt hand;
  \<^item> \<open>sortPoker()\<close> reorders the hand;
  \<^item> \<open>arrangePoker()\<close> lays the hand out again;
  \<^item> \<open>findAPoker(pid)\<close> looks for the sprite of a card of the player: the parameter
    tells whether it returns one, which is taken to depend on the seat and the hand;
  \<^item> \<open>removeAPoker(pid)\<close> takes a played card out of the hand;
  \<^item> \<open>replacePoker(pokers, 0)\<close> writes the revealed cards over the hand, and
    \<open>reDealPoker()\<close> lays them out;
  \<^item> \<open>cleanPokers()\<close> clears the hand at the end of a round;
  \<^item> \<open>sortPlay\<close> is \<open>pokers.sort(Poker.comparePoker)\<close>.
  The methods \<open>say\<close> and \<open>pushAPoker\<close>, the tweens, the audio and the other calls into
  the drawing library are left out, and so are their failures. Of a sprite the model
  keeps whether there is one: the scene throws where it uses a sprite that is not there.
\<close>

record player_ops =
  createPlay :: "nat \<Rightarrow> player"
  playerDealPoker :: "nat \<Rightarrow> val list \<Rightarrow> val list"
  sortPoker :: "nat \<Rightarrow> val list \<Rightarrow> val list"
  arrangePoker :: "nat \<Rightarrow> val list \<Rightarrow> val list"
  findAPoker :: "nat \<Rightarrow> val \<Rightarrow> val list \<Rightarrow> bool"
  removeAPoker :: "nat \<Rightarrow> val \<Rightarrow> val list \<Rightarrow> val list"
  replacePoker :: "nat \<Rightarrow> val list \<Rightarrow> val list \<Rightarrow> val list"
  reDealPoker :: "nat \<Rightarrow> val list \<Rightarrow> val list"
  cleanPokers :: "nat \<Rightarrow> val list \<Rightarrow> val list"
  sortPlay :: "val list \<Rightarrow> val list"

text \<open>\<open>players[i]\<close>: \<open>undefined\<close> outside the array, also at seat \<open>-1\<close>.\<close>

definition playerAt :: "player list \<Rightarrow> int \<Rightarrow> player option" where
  "playerAt ps i = (if 0 \<le> i \<and> i < int (length ps) then Some (ps ! nat i) else None)"

definition mapHand :: "nat \<Rightarrow> (val list \<Rightarrow> val list) \<Rightarrow> player list \<Rightarrow> player list" where
  "mapHand i f ps = ps[i := (ps ! i)\<lparr>pokerInHand := f (pokerInHand (ps ! i))\<rparr>]"

section \<open>The game scene\<close>

text \<open>
  The fields of \<open>Game\<close>, the module-level \<open>observer\<close>, and what the scene hands to its
  collaborators: the subscriber calls made (\<open>notified\<close>), the callbacks given to
  \<open>game.time.events.add\<close> with their delay (\<open>scheduled\<close>), the requests given to
  \<open>socket.send\<close> (\<open>sent\<close>) and the arguments of \<open>players[0].playPoker\<close>, the cards the
  local player has to beat (\<open>prompted\<close>). \<open>lastShotPlayer\<close> refers to one of the
  current players or is \<open>null\<close>: it is kept as the seat of that player.

  \<open>tablePokerPic\<close> is the plain object that maps a card to its sprite on the table. It
  is kept as the list of its keys. A card is turned into a property key as JavaScript
  does it: distinct numbers give distinct keys, and every object gives the same key.
\<close>

datatype timer = DealLastThreePoker | StartPlay | GameOver

datatype request =
    REQ_ROOM_LIST
  | REQ_JOIN_ROOM int val
  | REQ_READY int
  | REQ_CALL_SCORE int
  | REQ_SHOT_POKER "val list"

record game =
  players :: "player list"
  tablePoker :: "val list"
  tablePokerPic :: "val list"
  lastShotPlayer :: "nat option"
  whoseTurn :: int
  obs :: observer
  notified :: "(nat \<times> val) list"
  scheduled :: "(nat \<times> timer) list"
  sent :: "request list"
  prompted :: "val list list"

fun picKey :: "val \<Rightarrow> val" where
  "picKey (VObj fs) = VObj []"
| "picKey v = v"

text \<open>\<open>tablePokerPic[pid]\<close> is a sprite; \<open>tablePokerPic[pid] = p\<close>; \<open>delete tablePokerPic[pid]\<close>.\<close>

definition hasPic :: "game \<Rightarrow> val \<Rightarrow> bool" where
  "hasPic g pid = (picKey pid \<in> set (tablePokerPic g))"

definition addPic :: "val \<Rightarrow> val list \<Rightarrow> val list" where
  "addPic pid pics = (if picKey pid \<in> set pics then pics else pics @ [picKey pid])"

definition deletePic :: "val \<Rightarrow> val list \<Rightarrow> val list" where
  "deletePic pid pics = removeAll (picKey pid) pics"

text \<open>
  A handler either returns or throws; what it had written before throwing stays written,
  so both outcomes carry the state.
\<close>

datatype outcome = Done game | Threw error game

fun after :: "outcome \<Rightarrow> game" where
  "after (Done g) = g"
| "after (Threw e g) = g"

fun andThen :: "outcome \<Rightarrow> (game \<Rightarrow> outcome) \<Rightarrow> outcome" where
  "andThen (Done g) f = f g"
| "andThen (Threw e g) f = Threw e g"

definition new_Game :: "observer \<Rightarrow> game" where
  "new_Game ob =
     \<lparr> players = [], tablePoker = [], tablePokerPic = [], lastShotPlayer = None,
       whoseTurn = 0, obs = ob, notified = [], scheduled = [], sent = [], prompted = [] \<rparr>"

text \<open>
  The functions that \<open>create()\<close> subscribes, by number. Function 0 writes the title bar
  from \<open>room.id\<close>, \<open>room.origin\<close> and \<open>room.multiple\<close>: reading a property of \<open>undefined\<close>
  or \<open>null\<close> throws a TypeError, any other value has the properties or reads them as
  \<open>undefined\<close>. Function 1 shows or hides the ready button and function 2 the bid
  buttons; they only negate or copy their argument. The observer is private to the
  module, so nothing else is ever subscribed.
\<close>

definition subscriber :: "nat \<Rightarrow> val \<Rightarrow> error option" where
  "subscriber f v =
     (if f = 0 \<and> (v = VUndef \<or> v = VNull) then Some TypeError else None)"

text \<open>
  \<open>observer.set(key, v)\<close> in the scene: the subscriber calls made are recorded, also
  when the call throws.
\<close>

definition observer_set :: "game \<Rightarrow> key \<Rightarrow> val \<Rightarrow> outcome" where
  "observer_set g key v =
     (case Observer_set subscriber (obs g) key v of
        (ob, calls, r) \<Rightarrow>
          (case r of
             None \<Rightarrow> Done (g\<lparr>obs := ob, notified := notified g @ calls\<rparr>)
           | Some e \<Rightarrow> Threw e (g\<lparr>obs := ob, notified := notified g @ calls\<rparr>)))"

definition init :: "game \<Rightarrow> val \<Rightarrow> outcome" where
  "init g baseScore = observer_set g K_baseScore baseScore"

text \<open>
  \<open>create()\<close>: the three players, the local identity on seat 0, and the three
  subscriptions (title bar, ready button, bid buttons).
\<close>

definition create :: "player_ops \<Rightarrow> int \<Rightarrow> string \<Rightarrow> game \<Rightarrow> game" where
  "create P playerUid playerName g =
     (let ps = players g @ [createPlay P 0, createPlay P 1, createPlay P 2];
          ps' = ps[0 := updateInfo (ps ! 0) playerUid playerName];
          ob1 = Observer_subscribe (obs g) K_room (Fn 0);
          ob2 = Observer_subscribe ob1 K_ready (Fn 1);
          ob3 = Observer_subscribe ob2 K_rob (Fn 2)
      in g\<lparr>players := ps', obs := ob3\<rparr>)"

definition send_message :: "game \<Rightarrow> request \<Rightarrow> game" where
  "send_message g request = g\<lparr>sent := sent g @ [request]\<rparr>"

definition onopen :: "game \<Rightarrow> game" where
  "onopen g =
     send_message (send_message g REQ_ROOM_LIST)
       (REQ_JOIN_ROOM (- 1) (Observer_get (obs g) K_baseScore))"

definition finishPlay :: "game \<Rightarrow> val list \<Rightarrow> game" where
  "finishPlay g pokers = send_message g (REQ_SHOT_POKER pokers)"

text \<open>
  \<open>uidToSeat(uid)\<close>: the loop over the seats 0, 1, 2; reading \<open>uid\<close> of a player that is
  not there throws.
\<close>

fun uidToSeat_from :: "nat \<Rightarrow> nat \<Rightarrow> player list \<Rightarrow> int \<Rightarrow> error + int" where
  "uidToSeat_from 0 i ps u = Inr (- 1)"
| "uidToSeat_from (Suc n) i ps u =
     (if length ps \<le> i then Inl TypeError
      else if u = uid (ps ! i) then Inr (int i)
      else uidToSeat_from n (Suc i) ps u)"

definition uidToSeat :: "player list \<Rightarrow> int \<Rightarrow> error + int" where
  "uidToSeat ps u = uidToSeat_from 3 0 ps u"

text \<open>\<open>restart()\<close>\<close>

definition restart :: "player_ops \<Rightarrow> game \<Rightarrow> game" where
  "restart P g =
     g\<lparr>players := [createPlay P 0, createPlay P 1, createPlay P 2],
       tablePoker := [], tablePokerPic := [], lastShotPlayer := None, whoseTurn := 0\<rparr>"

text \<open>
  \<open>dealPoker(pokers)\<close>: the sprite of the card back \<open>55\<close> is put on the table; then
  seventeen rounds, each pushing \<open>55\<close> on the hands of seats 2 and 1 and \<open>pokers.pop()\<close>
  on the hand of seat 0; then each player lays out its hand. \<open>pop\<close> on an empty array
  gives \<open>undefined\<close>. Without a player on seat 2 the first push throws.
\<close>

definition js_pop :: "val list \<Rightarrow> val \<times> val list" where
  "js_pop xs = (if xs = [] then (VUndef, []) else (last xs, butlast xs))"

definition push :: "nat \<Rightarrow> val \<Rightarrow> player list \<Rightarrow> player list" where
  "push i v ps = mapHand i (\<lambda>h. h @ [v]) ps"

fun dealLoop :: "nat \<Rightarrow> val list \<Rightarrow> player list \<Rightarrow> player list" where
  "dealLoop 0 pokers ps = ps"
| "dealLoop (Suc n) pokers ps =
     (case js_pop pokers of
        (c, rest) \<Rightarrow> dealLoop n rest (push 0 c (push 1 (VNum 55) (push 2 (VNum 55) ps))))"

definition dealPoker :: "player_ops \<Rightarrow> game \<Rightarrow> val list \<Rightarrow> outcome" where
  "dealPoker P g pokers =
     (let g1 = g\<lparr>tablePokerPic := addPic (VNum 55) (tablePokerPic g)\<rparr>
      in if length (players g1) < 3 then Threw TypeError g1
         else Done (g1\<lparr>players :=
                mapHand 2 (playerDealPoker P 2)
                  (mapHand 1 (playerDealPoker P 1)
                     (mapHand 0 (playerDealPoker P 0) (dealLoop 17 pokers (players g1))))\<rparr>))"

definition startCallScore :: "game \<Rightarrow> outcome" where
  "startCallScore g =
     (if whoseTurn g = 0 then observer_set g K_rob (VBool True) else Done g)"

definition isLastShotPlayer :: "game \<Rightarrow> bool" where
  "isLastShotPlayer g =
     (0 \<le> whoseTurn g \<and> lastShotPlayer g = Some (nat (whoseTurn g)))"

definition startPlay :: "game \<Rightarrow> game" where
  "startPlay g =
     (if whoseTurn g < 0 \<or> int (length (players g)) \<le> whoseTurn g then g
      else if isLastShotPlayer g then g\<lparr>prompted := prompted g @ [[]]\<rparr>
      else g\<lparr>prompted := prompted g @ [tablePoker g]\<rparr>)"

text \<open>
  \<open>showLastThreePoker()\<close> gives up unless the table holds exactly three cards. It
  removes the sprite of the card back, makes a sprite for each of the three cards and
  schedules \<open>dealLastThreePoker\<close>.
\<close>

definition showLastThreePoker :: "game \<Rightarrow> game" where
  "showLastThreePoker g =
     (if length (tablePoker g) \<noteq> 3 then g
      else g\<lparr>tablePokerPic := fold addPic (tablePoker g) (deletePic (VNum 55) (tablePokerPic g)),
             scheduled := scheduled g @ [(1500, DealLastThreePoker)]\<rparr>)"

text \<open>
  \<open>dealLastThreePoker()\<close>: the three table cards are pushed on the hand of the player
  whose turn it is, and the hand is sorted. For the local player the hand is laid out
  again. For a peer the three sprites are turned over (\<open>p.frame = 55 - 1\<close>) and moved to
  the place of a card back of the hand (\<open>first = turnPlayer.findAPoker(55)\<close>, \<open>first.x\<close>):
  that throws if one of the sprites or the card back is not there, after the cards are
  in the hand and before the table is emptied.
\<close>

definition dealLastThreePoker :: "player_ops \<Rightarrow> game \<Rightarrow> outcome" where
  "dealLastThreePoker P g =
     (if whoseTurn g < 0 \<or> int (length (players g)) \<le> whoseTurn g then Done g
      else if length (tablePoker g) \<noteq> 3 then Done g
      else
        let s = nat (whoseTurn g);
            g1 = g\<lparr>players := mapHand s (\<lambda>h. sortPoker P s (h @ tablePoker g)) (players g)\<rparr>
        in if whoseTurn g = 0 then
             Done (startPlay
               (g1\<lparr>players := mapHand s (arrangePoker P s) (players g1),
                   tablePoker := [], lastShotPlayer := Some s\<rparr>))
           else if \<not> list_all (hasPic g1) (tablePoker g1) \<or>
                   \<not> findAPoker P s (VNum 55) (pokerInHand (players g1 ! s))
           then Threw TypeError g1
           else Done (g1\<lparr>tablePoker := [], lastShotPlayer := Some s\<rparr>))"

text \<open>
  The first loop of \<open>handleShotPoker\<close>: each card of the play, in its order, is looked up
  in the hand as it is by then (\<open>p = turnPlayer.findAPoker(pokers[i])\<close>, \<open>p.id = ...\<close>)
  and removed. The result tells whether every card was found, and gives the hand at the
  end of the loop or at the card that was not found.
\<close>

fun takeCards :: "player_ops \<Rightarrow> nat \<Rightarrow> val list \<Rightarrow> val list \<Rightarrow> bool \<times> val list" where
  "takeCards P s [] h = (True, h)"
| "takeCards P s (c # cs) h =
     (if findAPoker P s c h then takeCards P s cs (removeAPoker P s c h) else (False, h))"

text \<open>
  \<open>handleShotPoker(packet)\<close>. A pass only has the player say so. A play is sorted, its
  cards leave the hand, the sprites of the cards on the table are destroyed, and only
  then the play is put on the table with its sprites and its owner, and the hand is laid
  out again. A card that is not found in the hand, or a table card without a sprite,
  throws before that. At the end the turn goes on if the player still holds cards.
\<close>

definition handleShotPoker :: "player_ops \<Rightarrow> game \<Rightarrow> int \<Rightarrow> val list \<Rightarrow> outcome" where
  "handleShotPoker P g u pokers =
     (case uidToSeat (players g) u of
        Inl e \<Rightarrow> Threw e g
      | Inr seat \<Rightarrow>
          let g1 = g\<lparr>whoseTurn := seat\<rparr> in
          (case playerAt (players g1) seat of
             None \<Rightarrow> Threw TypeError g1
           | Some turnPlayer \<Rightarrow>
               let s = nat seat in
               andThen
                 (if pokers = [] then Done g1
                  else
                    let played = sortPlay P pokers;
                        taken = takeCards P s played (pokerInHand turnPlayer);
                        g2 = g1\<lparr>players := mapHand s (\<lambda>h. snd taken) (players g1)\<rparr>
                    in if \<not> fst taken then Threw TypeError g2
                       else if \<not> list_all (hasPic g2) (tablePoker g2) then Threw TypeError g2
                       else Done (g2\<lparr>players := mapHand s (arrangePoker P s) (players g2),
                                     tablePoker := played,
                                     tablePokerPic := fold addPic played [],
                                     lastShotPlayer := Some s\<rparr>))
                 (\<lambda>g3. if pokerInHand (players g3 ! s) \<noteq> [] then
                         let g4 = g3\<lparr>whoseTurn := (seat + 1) mod 3\<rparr>
                         in Done (if whoseTurn g4 = 0
                                  then g4\<lparr>scheduled := scheduled g4 @ [(1000, StartPlay)]\<rparr>
                                  else g4)
                       else Done g3)))"

section \<open>Messages\<close>

text \<open>
  The packets of \<open>onmessage\<close>, one constructor for each \<open>case\<close> of the \<open>switch\<close> and
  \<open>UNKNOWN\<close> for its \<open>default\<close>. The fields are those the handler reads:
  \<^item> join: \<open>room\<close>, the array \<open>room.bottom_cards\<close> when there is one, and \<open>players\<close>
    (each with \<open>uid\<close> and \<open>name\<close>);
  \<^item> ready: \<open>uid\<close>;
  \<^item> deal: \<open>uid\<close>, \<open>pokers\<close>;
  \<^item> call score: \<open>uid\<close>, \<open>rob\<close>, \<open>landlord\<close>, \<open>pokers\<close> when present, \<open>multiple\<close>;
  \<^item> shot: \<open>uid\<close>, \<open>pokers\<close>, \<open>multiple\<close>;
  \<^item> turn: \<open>uid\<close>, \<open>pokers\<close> when present;
  \<^item> game over: \<open>winner\<close>, \<open>players\<close> (each with \<open>uid\<close> and \<open>pokers\<close>).
\<close>

record info =
  info_uid :: int
  info_name :: string

datatype message =
    RSP_ROOM_LIST
  | RSP_JOIN_ROOM val "val list option" "info list"
  | RSP_READY int
  | RSP_DEAL_POKER int "val list"
  | RSP_CALL_SCORE int int int "val list option" val
  | RSP_SHOT_POKER int "val list" val
  | RSP_TURN_PLAYER int "val list option"
  | RSP_GAME_OVER int "(int \<times> val list) list"
  | UNKNOWN

text \<open>
  The loop of the join case over \<open>syncInfo\<close>: at the first entry that carries the uid
  of seat 0, the next two entries (modulo 3) go to seats 1 and 2, and the loop breaks.
\<close>

fun joinLoop :: "nat \<Rightarrow> nat \<Rightarrow> info list \<Rightarrow> game \<Rightarrow> outcome" where
  "joinLoop 0 i syncInfo g = Done g"
| "joinLoop (Suc n) i syncInfo g =
     (if players g = [] then Threw TypeError g
      else if info_uid (syncInfo ! i) = uid (players g ! 0) then
        (if length (players g) < 2 \<or> length syncInfo \<le> (i + 1) mod 3 then Threw TypeError g
         else
           let info_1 = syncInfo ! ((i + 1) mod 3);
               g1 = g\<lparr>players := (players g)
                      [1 := updateInfo (players g ! 1) (info_uid info_1) (info_name info_1)]\<rparr>
           in if length (players g1) < 3 \<or> length syncInfo \<le> (i + 2) mod 3 then Threw TypeError g1
              else
                let info_2 = syncInfo ! ((i + 2) mod 3)
                in Done (g1\<lparr>players := (players g1)
                           [2 := updateInfo (players g1 ! 2) (info_uid info_2) (info_name info_2)]\<rparr>))
      else joinLoop n (Suc i) syncInfo g)"

text \<open>\<open>v >= 3\<close> on a value: only a number can pass.\<close>

fun ge3 :: "val \<Rightarrow> bool" where
  "ge3 (VNum n) = (3 \<le> n)"
| "ge3 _ = False"

text \<open>\<open>xs[i] = v\<close> on an array: past the end the array grows, the holes reading \<open>undefined\<close>.\<close>

definition js_put :: "val list \<Rightarrow> nat \<Rightarrow> val \<Rightarrow> val list" where
  "js_put xs i v =
     (if i < length xs then xs[i := v] else xs @ replicate (i - length xs) VUndef @ [v])"

text \<open>The \<open>forEach\<close> of the game-over case: the revealed hands of the two peers.\<close>

fun revealHands :: "player_ops \<Rightarrow> (int \<times> val list) list \<Rightarrow> game \<Rightarrow> outcome" where
  "revealHands P [] g = Done g"
| "revealHands P ((u, pokers) # rest) g =
     (case uidToSeat (players g) u of
        Inl e \<Rightarrow> Threw e g
      | Inr seat \<Rightarrow>
          revealHands P rest
            (if 0 < seat
             then g\<lparr>players :=
                    mapHand (nat seat)
                      (\<lambda>h. reDealPoker P (nat seat) (replacePoker P (nat seat) pokers h))
                      (players g)\<rparr>
             else g))"

fun onmessage :: "player_ops \<Rightarrow> game \<Rightarrow> message \<Rightarrow> outcome" where
  "onmessage P g RSP_ROOM_LIST = Done g"
| "onmessage P g (RSP_JOIN_ROOM room bottom_cards syncInfo) =
     andThen (observer_set g K_room room) (\<lambda>g1.
     andThen (joinLoop (length syncInfo) 0 syncInfo g1) (\<lambda>g2.
       (case (room, bottom_cards) of
          (VObj fs, Some bs) \<Rightarrow>
            if length bs = 3 then
              let g3 = g2\<lparr>tablePoker := bs\<rparr>
              in Done (if getProp fs N_landlord_uid \<noteq> VNum (- 1) \<and> ge3 (getProp fs N_state)
                       then showLastThreePoker g3 else g3)
            else Done g2
        | _ \<Rightarrow> Done g2)))"
| "onmessage P g (RSP_READY u) =
     (if players g = [] then Threw TypeError g
      else if u = uid (players g ! 0) then observer_set g K_ready (VBool True)
      else Done g)"
| "onmessage P g (RSP_DEAL_POKER playerId pokers) =
     (if players g = [] then Threw TypeError g
      else if playerId = uid (players g ! 0) then
        andThen (dealPoker P g pokers) (\<lambda>g1.
          (case uidToSeat (players g1) playerId of
             Inl e \<Rightarrow> Threw e g1
           | Inr seat \<Rightarrow> startCallScore (g1\<lparr>whoseTurn := seat\<rparr>)))
      else Done g)"
| "onmessage P g (RSP_CALL_SCORE playerId rob landlord pokers multiple) =
     (case uidToSeat (players g) playerId of
        Inl e \<Rightarrow> Threw e g
      | Inr seat \<Rightarrow>
          let g1 = g\<lparr>whoseTurn := seat\<rparr> in
          if playerAt (players g1) seat = None then Threw TypeError g1
          else
            andThen (observer_set g1 K_rob (VBool False)) (\<lambda>g2.
            andThen
              (if landlord = - 1 then
                 startCallScore (g2\<lparr>whoseTurn := (whoseTurn g2 + 1) mod 3\<rparr>)
               else
                 (case uidToSeat (players g2) landlord of
                    Inl e \<Rightarrow> Threw e g2
                  | Inr ls \<Rightarrow>
                      let g3 = g2\<lparr>whoseTurn := ls\<rparr> in
                      (case pokers of
                         None \<Rightarrow> Done g3
                       | Some bs \<Rightarrow>
                           if length bs = 3 then
                             let g4 = g3\<lparr>tablePoker :=
                                        js_put (js_put (js_put (tablePoker g3) 0 (bs ! 0)) 1 (bs ! 1))
                                          2 (bs ! 2)\<rparr>
                             in (case playerAt (players g4) ls of
                                   None \<Rightarrow> Threw TypeError g4
                                 | Some landlordPlayer \<Rightarrow>
                                     Done (showLastThreePoker
                                       (g4\<lparr>players :=
                                            (players g4)[nat ls := setLandlord landlordPlayer]\<rparr>)))
                           else Done g3)))
              (\<lambda>g5. observer_set g5 K_room_multiple multiple)))"
| "onmessage P g (RSP_SHOT_POKER u pokers multiple) =
     andThen (handleShotPoker P g u pokers) (\<lambda>g1. observer_set g1 K_room_multiple multiple)"
| "onmessage P g (RSP_TURN_PLAYER playerId pokers) =
     (case uidToSeat (players g) playerId of
        Inl e \<Rightarrow> Threw e g
      | Inr seat \<Rightarrow>
          let g1 = g\<lparr>whoseTurn := seat,
                     tablePoker := (case pokers of None \<Rightarrow> [] | Some lastPokers \<Rightarrow> lastPokers)\<rparr>
          in Done (if whoseTurn g1 = 0 then startPlay g1 else g1))"
| "onmessage P g (RSP_GAME_OVER winner revealed) =
     andThen (revealHands P revealed g) (\<lambda>g1.
       (case uidToSeat (players g1) winner of
          Inl e \<Rightarrow> Threw e g1
        | Inr seat \<Rightarrow>
            Done (g1\<lparr>whoseTurn := seat, scheduled := scheduled g1 @ [(2000, GameOver)]\<rparr>)))"
| "onmessage P g UNKNOWN = Done g"

text \<open>
  The callbacks the scene schedules. \<open>gameOver\<close> reads \<open>players[whoseTurn].isLandlord\<close>
  for its message, resets the ready flag and runs \<open>cleanWorld()\<close>, which clears the
  hands and destroys the sprites of the table cards; it leaves \<open>tablePoker\<close> and
  \<open>tablePokerPic\<close> as they are.
\<close>

definition cleanWorld :: "player_ops \<Rightarrow> game \<Rightarrow> outcome" where
  "cleanWorld P g =
     (let g1 = g\<lparr>players := map (\<lambda>(i, p). p\<lparr>pokerInHand := cleanPokers P i (pokerInHand p)\<rparr>)
                              (enumerate 0 (players g))\<rparr>
      in if list_all (hasPic g1) (tablePoker g1) then Done g1 else Threw TypeError g1)"

definition gameOver :: "player_ops \<Rightarrow> game \<Rightarrow> outcome" where
  "gameOver P g =
     (case playerAt (players g) (whoseTurn g) of
        None \<Rightarrow> Threw TypeError g
      | Some winner \<Rightarrow>
          andThen (observer_set g K_ready (VBool False)) (\<lambda>g1. cleanWorld P g1))"

fun runTimer :: "player_ops \<Rightarrow> timer \<Rightarrow> game \<Rightarrow> outcome" where
  "runTimer P DealLastThreePoker g = dealLastThreePoker P g"
| "runTimer P StartPlay g = Done (startPlay g)"
| "runTimer P GameOver g = gameOver P g"

section \<open>Sequences of observer calls\<close>

text \<open>
  The callbacks registered for a key, and a client of the observer as the sequence of
  its calls, each of which may throw: the sequence goes on with the observer as the call
  left it.
\<close>

definition registered :: "observer \<Rightarrow> key \<Rightarrow> callback list" where
  "registered ob key = (case map_of (subscribers ob) key of None \<Rightarrow> [] | Some cbs \<Rightarrow> cbs)"

datatype obs_call =
    Set key val
  | Subscribe key callback
  | Unsubscribe key callback

fun obs_step ::
  "(nat \<Rightarrow> val \<Rightarrow> error option) \<Rightarrow> observer \<Rightarrow> obs_call \<Rightarrow> observer \<times> (nat \<times> val) list"
where
  "obs_step T ob (Set key v) = (case Observer_set T ob key v of (ob', out, r) \<Rightarrow> (ob', out))"
| "obs_step T ob (Subscribe key cb) = (Observer_subscribe ob key cb, [])"
| "obs_step T ob (Unsubscribe key cb) =
     (case Observer_unsubscribe ob key cb of Inl e \<Rightarrow> (ob, []) | Inr ob' \<Rightarrow> (ob', []))"

fun obs_run ::
  "(nat \<Rightarrow> val \<Rightarrow> error option) \<Rightarrow> observer \<Rightarrow> obs_call list \<Rightarrow> observer \<times> (nat \<times> val) list"
where
  "obs_run T ob [] = (ob, [])"
| "obs_run T ob (c # cs) =
     (case obs_step T ob c of
        (ob1, out1) \<Rightarrow> (case obs_run T ob1 cs of (ob2, out2) \<Rightarrow> (ob2, out1 @ out2)))"

text \<open>A function that no key has among its subscribers.\<close>

definition unregistered :: "nat \<Rightarrow> observer \<Rightarrow> bool" where
  "unregistered f ob = (\<forall>key. Fn f \<notin> set (registered ob key))"

text \<open>
  What the \<open>forEach\<close> over a list of subscribers comes to when the functions behave as
  \<open>T\<close> says: the functions called are those of the list, in their order, up to and
  including the first that throws on the value, and the exception is the one of that
  function.
\<close>

definition called :: "(nat \<Rightarrow> val \<Rightarrow> error option) \<Rightarrow> callback list \<Rightarrow> val \<Rightarrow> nat list" where
  "called T cbs v =
     takeWhile (\<lambda>h. T h v = None) [h. Fn h \<leftarrow> cbs] @
     take 1 (dropWhile (\<lambda>h. T h v = None) [h. Fn h \<leftarrow> cbs])"

definition thrown :: "(nat \<Rightarrow> val \<Rightarrow> error option) \<Rightarrow> callback list \<Rightarrow> val \<Rightarrow> error option" where
  "thrown T cbs v =
     (case dropWhile (\<lambda>h. T h v = None) [h. Fn h \<leftarrow> cbs] of [] \<Rightarrow> None | h # hs \<Rightarrow> T h v)"

text \<open>
  A table of two functions of which the second throws on a number, and one where no
  function throws.
\<close>

definition T_strict :: "nat \<Rightarrow> val \<Rightarrow> error option" where
  "T_strict f v = (case v of VNum n \<Rightarrow> if f = 4 then Some (Exception 1) else None | _ \<Rightarrow> None)"

definition T_quiet :: "nat \<Rightarrow> val \<Rightarrow> error option" where
  "T_quiet f v = None"

text \<open>
  An observer as the scene has it after a join: the room under \<open>room\<close>, the title bar
  subscribed to \<open>room\<close>, and one more function subscribed to the key \<open>room.multiple\<close>.
\<close>

definition ob_room :: observer where
  "ob_room =
     \<lparr> state = [(wholeName K_room, VObj [(N_id, VNum 1), (N_multiple, VNum 1)])],
       subscribers = [(K_room, [Fn 0]), (K_room_multiple, [Fn 7])] \<rparr>"

text \<open>
  An observer with three functions and a falsy value subscribed to \<open>ready\<close>.
\<close>

definition ob_three :: observer where
  "ob_three = \<lparr> state = [], subscribers = [(K_ready, [Fn 3, Falsy, Fn 4, Fn 6])] \<rparr>"

definition calls_countdown :: "obs_call list" where
  "calls_countdown =
     [Subscribe K_countdown (Fn 5), Subscribe K_ready (Fn 1),
      Set K_countdown (VNum 30), Set K_ready (VBool True)]"

section \<open>Reading a state\<close>

text \<open>
  The hand of a seat; whether a handler returned; the ids of the deck, 1 to 54 (the card
  back is 55); what \<open>n\<close> pops yield from an array, last element first and \<open>undefined\<close>
  once it is empty; and the cards the scene knows of: the three hands and the table.
\<close>

definition hand :: "game \<Rightarrow> nat \<Rightarrow> val list" where
  "hand g i = pokerInHand (players g ! i)"

fun returned :: "outcome \<Rightarrow> bool" where
  "returned (Done g) = True"
| "returned (Threw e g) = False"

fun deckCard :: "val \<Rightarrow> bool" where
  "deckCard (VNum n) = (1 \<le> n \<and> n \<le> 54)"
| "deckCard _ = False"

definition popped :: "nat \<Rightarrow> val list \<Rightarrow> val list" where
  "popped n pokers = take n (rev pokers) @ replicate (n - length pokers) VUndef"

definition held :: "game \<Rightarrow> val multiset" where
  "held g = mset (hand g 0) + mset (hand g 1) + mset (hand g 2) + mset (tablePoker g)"

text \<open>The game-over callback is waiting to run.\<close>

definition gameOverScheduled :: "game \<Rightarrow> bool" where
  "gameOverScheduled g = (GameOver \<in> snd ` set (scheduled g))"

text \<open>The messages are delivered one after the other, also after a handler threw.\<close>

fun deliver :: "player_ops \<Rightarrow> game \<Rightarrow> message list \<Rightarrow> game" where
  "deliver P g [] = g"
| "deliver P g (m # ms) = deliver P (after (onmessage P g m)) ms"

text \<open>
  The multiplier of the room, as the title bar shows it: \<open>room.multiple\<close> of the
  observer.
\<close>

definition multiple :: "game \<Rightarrow> val" where
  "multiple g =
     (case Observer_get (obs g) K_room of VObj fs \<Rightarrow> getProp fs N_multiple | _ \<Rightarrow> VUndef)"

text \<open>
  A bid that names no landlord, as a call-score packet: \<open>uid\<close>, \<open>rob\<close>, \<open>pokers\<close> and
  \<open>multiple\<close> as the server sends them, \<open>landlord\<close> being \<open>-1\<close>.
\<close>

fun openBid :: "int \<times> int \<times> val list option \<times> val \<Rightarrow> message" where
  "openBid (u, rob, pokers, m) = RSP_CALL_SCORE u rob (- 1) pokers m"

text \<open>
  What a play of the seat \<open>s\<close> needs to go through: the cards of the play, in the order
  \<open>sortPlay\<close> gives them, are found in the hand one after the other, and every card on
  the table has its sprite.
\<close>

definition playable :: "player_ops \<Rightarrow> game \<Rightarrow> nat \<Rightarrow> val list \<Rightarrow> bool" where
  "playable P g s pokers =
     (fst (takeCards P s (sortPlay P pokers) (hand g s)) \<and>
      list_all (hasPic g) (tablePoker g))"

section \<open>A concrete table\<close>

text \<open>
  Modelled from the spec: \<open>createPlay\<close> and the hand methods of \<open>player.mjs\<close>, and
  \<open>Poker.comparePoker\<close> of \<open>rule.mjs\<close>, are not among the sources. The spec's Card Set
  has operations to add, remove and count cards, a Hand is an ordered sequence of CardId,
  a play removes its cards from the hand, and a Player gets its identity from the join:
  a new player has no identity (uid \<open>-1\<close>, the value the packets use for "nobody"), an
  empty hand and no landlord flag; sorting leaves the order of a hand as it is; the
  local player has the sprite of a card if the card is in the hand, and a peer, whose
  cards are not known, has a sprite for any card as long as it holds one; removing
  a card takes its first occurrence out; the revealed cards replace the hand from its
  first position; cleaning empties the hand; laying a hand out does not change it. This
  instance is used to run the model on concrete packets.
\<close>

definition spec_ops :: player_ops where
  "spec_ops =
     \<lparr> createPlay = (\<lambda>seat. \<lparr> uid = - 1, name = [], pokerInHand = [], isLandlord = False \<rparr>),
       playerDealPoker = (\<lambda>seat h. h),
       sortPoker = (\<lambda>seat h. h),
       arrangePoker = (\<lambda>seat h. h),
       findAPoker = (\<lambda>seat pid h. if seat = 0 then pid \<in> set h else h \<noteq> []),
       removeAPoker = (\<lambda>seat pid h. remove1 pid h),
       replacePoker = (\<lambda>seat pokers h. pokers @ drop (length pokers) h),
       reDealPoker = (\<lambda>seat h. h),
       cleanPokers = (\<lambda>seat h. []),
       sortPlay = (\<lambda>pokers. pokers) \<rparr>"

text \<open>
  The scene after \<open>create()\<close> for the local player 1, after the join of the players
  1, 2, 3 to room 1, and after the deal of the cards 1 to 17.
\<close>

definition room_1 :: val where
  "room_1 = VObj [(N_id, VNum 1), (N_origin, VNum 10), (N_multiple, VNum 6)]"

definition sync_123 :: "info list" where
  "sync_123 =
     [\<lparr> info_uid = 1, info_name = ''me'' \<rparr>, \<lparr> info_uid = 2, info_name = ''ai2'' \<rparr>,
      \<lparr> info_uid = 3, info_name = ''ai3'' \<rparr>]"

definition pokers_17 :: "val list" where
  "pokers_17 = map VNum [1, 2, 3, 4, 5, 6, 7, 8, 9, 10, 11, 12, 13, 14, 15, 16, 17]"

definition g_created :: game where
  "g_created = create spec_ops 1 ''me'' (new_Game new_Observer)"

definition g_joined :: game where
  "g_joined = after (onmessage spec_ops g_created (RSP_JOIN_ROOM room_1 None sync_123))"

definition g_dealt :: game where
  "g_dealt = after (onmessage spec_ops g_joined (RSP_DEAL_POKER 1 pokers_17))"

definition pokers_16 :: "val list" where
  "pokers_16 = map VNum [1, 2, 3, 4, 5, 6, 7, 8, 9, 10, 11, 12, 13, 14, 15, 16]"

text \<open>
  The end of a round: the local player, who is the landlord and led the last trick, holds
  one card, the peers hold two and five cards, and it is the local player's turn.
\<close>

definition g_endgame :: game where
  "g_endgame =
     \<lparr> players = [\<lparr> uid = 1, name = ''me'', pokerInHand = [VNum 3], isLandlord = True \<rparr>,
                  \<lparr> uid = 2, name = ''ai2'', pokerInHand = replicate 2 (VNum 55), isLandlord = False \<rparr>,
                  \<lparr> uid = 3, name = ''ai3'', pokerInHand = replicate 5 (VNum 55), isLandlord = False \<rparr>],
       tablePoker = [VNum 9], tablePokerPic = [VNum 9], lastShotPlayer = Some 0, whoseTurn = 0,
       obs = \<lparr> state = [(wholeName K_room, room_1), (wholeName K_rob, VBool False)],
               subscribers = [(K_room, [Fn 0]), (K_ready, [Fn 1]), (K_rob, [Fn 2])] \<rparr>,
       notified = [], scheduled = [], sent = [], prompted = [] \<rparr>"

text \<open>
  The middle of a trick: seat 1 has played the pair of kings 12 and 25, and it is the
  turn of seat 2.
\<close>

definition g_trick :: game where
  "g_trick =
     \<lparr> players = [\<lparr> uid = 1, name = ''me'', pokerInHand = map VNum [17, 16, 4, 3], isLandlord = False \<rparr>,
                  \<lparr> uid = 2, name = ''ai2'', pokerInHand = replicate 9 (VNum 55), isLandlord = True \<rparr>,
                  \<lparr> uid = 3, name = ''ai3'', pokerInHand = replicate 6 (VNum 55), isLandlord = False \<rparr>],
       tablePoker = [VNum 12, VNum 25], tablePokerPic = [VNum 12, VNum 25],
       lastShotPlayer = Some 1, whoseTurn = 2,
       obs = \<lparr> state = [(wholeName K_room, room_1), (wholeName K_rob, VBool False)],
               subscribers = [(K_room, [Fn 0]), (K_ready, [Fn 1]), (K_rob, [Fn 2])] \<rparr>,
       notified = [], scheduled = [], sent = [], prompted = [] \<rparr>"

text \<open>
  The scene \<open>g_trick\<close> after a turn packet for seat 2 that names the card 30 as the
  play to beat: the card is on the table, and the table has no sprite for it.
\<close>

definition g_turned :: game where
  "g_turned = after (onmessage spec_ops g_trick (RSP_TURN_PLAYER 3 (Some [VNum 30])))"

text \<open>Four bids without a landlord, by the seats 0, 1, 2 and 0 again.\<close>

definition bids_4 :: "(int \<times> int \<times> val list option \<times> val) list" where
  "bids_4 =
     [(1, 1, None, VNum 6), (2, 0, None, VNum 6), (3, 0, None, VNum 6), (1, 1, None, VNum 12)]"

text \<open>The closing bid of seat 2, which becomes the landlord with the cards 52, 53, 54.\<close>

definition bid_landlord_3 :: message where
  "bid_landlord_3 = RSP_CALL_SCORE 3 1 3 (Some [VNum 52, VNum 53, VNum 54]) (VNum 12)"

text \<open>
  A round that ends with a play of four cards, and the start of the next round on the
  same scene. In \<open>g_bomb\<close> the local player holds the four cards 5, 18, 31 and 44 and it
  is its turn. It plays them, the server announces the end of the round, the game-over
  callback runs (\<open>g_round_over\<close>); then the local player is ready again and is dealt
  the cards 1 to 17 (\<open>g_second_deal\<close>).
\<close>

definition g_bomb :: game where
  "g_bomb =
     \<lparr> players = [\<lparr> uid = 1, name = ''me'', pokerInHand = map VNum [5, 18, 31, 44],
                    isLandlord = True \<rparr>,
                  \<lparr> uid = 2, name = ''ai2'', pokerInHand = replicate 2 (VNum 55), isLandlord = False \<rparr>,
                  \<lparr> uid = 3, name = ''ai3'', pokerInHand = replicate 5 (VNum 55), isLandlord = False \<rparr>],
       tablePoker = [VNum 9], tablePokerPic = [VNum 9], lastShotPlayer = Some 0, whoseTurn = 0,
       obs = \<lparr> state = [(wholeName K_room, room_1), (wholeName K_rob, VBool False)],
               subscribers = [(K_room, [Fn 0]), (K_ready, [Fn 1]), (K_rob, [Fn 2])] \<rparr>,
       notified = [], scheduled = [], sent = [], prompted = [] \<rparr>"

definition g_round_over :: game where
  "g_round_over =
     after (runTimer spec_ops GameOver
       (deliver spec_ops g_bomb
          [RSP_SHOT_POKER 1 (map VNum [5, 18, 31, 44]) (VNum 12),
           RSP_GAME_OVER 1 [(1, []), (2, [VNum 20, VNum 21]), (3, map VNum [30, 31, 32, 33, 34])]]))"

definition g_second_deal :: game where
  "g_second_deal = deliver spec_ops g_round_over [RSP_READY 1, RSP_DEAL_POKER 1 pokers_17]"

text \<open>The player list of a join with the local player 1 at index 2.\<close>

definition sync_231 :: "info list" where
  "sync_231 =
     [\<lparr> info_uid = 2, info_name = ''ai2'' \<rparr>, \<lparr> info_uid = 3, info_name = ''ai3'' \<rparr>,
      \<lparr> info_uid = 1, info_name = ''me'' \<rparr>]"

section \<open>Properties of the observer\<close>

lemma countdown_plain: "\<not> dotted K_countdown"
  by transfer simp

lemma room_multiple_parts:
  "dotted K_room_multiple \<and> K_room_multiple \<noteq> K_countdown \<and>
   firstKey K_room_multiple = K_room \<and> part0 K_room_multiple = wholeName K_room \<and>
   part1 K_room_multiple = N_multiple"
  by (intro conjI; transfer; simp)

lemma scene_keys:
  "K_room \<noteq> K_countdown \<and> K_ready \<noteq> K_countdown \<and> K_rob \<noteq> K_countdown \<and>
   K_baseScore \<noteq> K_countdown \<and> K_room \<noteq> K_ready \<and> K_room \<noteq> K_rob \<and> K_ready \<noteq> K_rob \<and>
   \<not> dotted K_room \<and> \<not> dotted K_ready \<and> \<not> dotted K_rob \<and> \<not> dotted K_baseScore"
  by (intro conjI; transfer; simp)

lemma wholeName_firstKey: "wholeName (firstKey key) = part0 key"
  by transfer simp

lemma invoke_called: "invoke T cbs v = (map (\<lambda>h. (h, v)) (called T cbs v), thrown T cbs v)"
  by (induction T cbs v rule: invoke.induct)
     (auto simp: called_def thrown_def split: option.splits prod.splits)

lemma invoke_mem: "(f, w) \<in> set (fst (invoke T cbs v)) \<Longrightarrow> Fn f \<in> set cbs"
  by (induction T cbs v rule: invoke.induct) (auto split: option.splits prod.splits)

lemma invoke_quiet: "\<forall>h. T h v = None \<Longrightarrow> snd (invoke T cbs v) = None"
  by (induction T cbs v rule: invoke.induct) (auto split: option.splits prod.splits)

lemma called_quiet:
  assumes "\<forall>h. T h v = None"
  shows "called T cbs v = [h. Fn h \<leftarrow> cbs] \<and> thrown T cbs v = None"
proof -
  have t: "takeWhile (\<lambda>h. True) xs = xs" for xs :: "nat list"
    by (induction xs) auto
  have d: "dropWhile (\<lambda>h. True) xs = []" for xs :: "nat list"
    by (induction xs) auto
  show ?thesis
    using assms by (simp add: called_def thrown_def t d)
qed

lemma notify_called:
  "notify T ob key =
     (map (\<lambda>h. (h, getProp (state ob) (wholeName key)))
        (called T (registered ob key) (getProp (state ob) (wholeName key))),
      thrown T (registered ob key) (getProp (state ob) (wholeName key)))"
  by (simp add: notify_def registered_def invoke_called called_def thrown_def split: option.splits)

lemma notify_mem: "(f, w) \<in> set (fst (notify T ob key)) \<Longrightarrow> Fn f \<in> set (registered ob key)"
  by (auto simp: notify_def registered_def split: option.splits dest: invoke_mem)

lemma getProp_update: "getProp (AList.update k v fs) k = v"
  by (simp add: getProp_def update_conv')

lemma set_countdown: "Observer_set T ob K_countdown v = (ob, [], None)"
  by (simp add: Observer_set_def)

lemma subscribe_countdown: "Observer_subscribe ob K_countdown cb = ob"
  by (simp add: Observer_subscribe_def)

lemma set_plain:
  assumes "key \<noteq> K_countdown" "\<not> dotted key"
  shows "Observer_set T ob key v =
     (ob\<lparr>state := AList.update (wholeName key) v (state ob)\<rparr>,
      map (\<lambda>h. (h, v)) (called T (registered ob key) v),
      thrown T (registered ob key) v)"
  using assms
  by (simp add: Observer_set_def Let_def notify_called getProp_update registered_def)

lemma set_dotted:
  assumes "dotted key" "getProp (state ob) (part0 key) = VObj fs"
  shows "Observer_set T ob key v =
     (ob\<lparr>state := AList.update (part0 key) (VObj (AList.update (part1 key) v fs)) (state ob)\<rparr>,
      map (\<lambda>h. (h, VObj (AList.update (part1 key) v fs)))
        (called T (registered ob (firstKey key)) (VObj (AList.update (part1 key) v fs))),
      thrown T (registered ob (firstKey key)) (VObj (AList.update (part1 key) v fs)))"
proof -
  have k: "key \<noteq> K_countdown" using assms(1) countdown_plain by auto
  show ?thesis
    using assms k
    by (simp add: Observer_set_def Let_def notify_called getProp_update registered_def
        wholeName_firstKey)
qed

lemma set_dotted_no_object:
  assumes "dotted key" "\<forall>fs. getProp (state ob) (part0 key) \<noteq> VObj fs"
  shows "Observer_set T ob key v = (ob, [], Some TypeError)"
proof -
  have k: "key \<noteq> K_countdown" using assms(1) countdown_plain by auto
  have "setProp (getProp (state ob) (part0 key)) (part1 key) v = Inl TypeError"
    using assms(2) by (cases "getProp (state ob) (part0 key)") auto
  then show ?thesis using assms(1) k by (simp add: Observer_set_def)
qed

lemma set_subscribers:
  "Observer_set T ob key v = (ob', out, r) \<Longrightarrow> subscribers ob' = subscribers ob"
  by (auto simp: Observer_set_def Let_def split: if_splits sum.splits prod.splits)

lemma set_calls_registered:
  assumes "Observer_set T ob key v = (ob', out, r)" "(f, w) \<in> set out"
  shows "\<exists>k. Fn f \<in> set (registered ob k)"
proof -
  have "\<exists>st k. out = [] \<or> out = fst (notify T (ob\<lparr>state := st\<rparr>) k)"
  proof (cases "key = K_countdown")
    case True
    then show ?thesis using assms(1) by (simp add: Observer_set_def)
  next
    case False
    show ?thesis
    proof (cases "dotted key")
      case False
      with \<open>key \<noteq> K_countdown\<close> assms(1)
      have "out = fst (notify T (ob\<lparr>state := AList.update (wholeName key) v (state ob)\<rparr>) key)"
        by (auto simp: Observer_set_def Let_def split: prod.splits)
      then show ?thesis by blast
    next
      case True
      show ?thesis
      proof (cases "setProp (getProp (state ob) (part0 key)) (part1 key) v")
        case (Inl e)
        with True \<open>key \<noteq> K_countdown\<close> assms(1) show ?thesis
          by (simp add: Observer_set_def)
      next
        case (Inr target)
        with True \<open>key \<noteq> K_countdown\<close> assms(1)
        have "out = fst (notify T (ob\<lparr>state := AList.update (part0 key) target (state ob)\<rparr>)
            (firstKey key))"
          by (auto simp: Observer_set_def Let_def split: prod.splits)
        then show ?thesis by blast
      qed
    qed
  qed
  then obtain st k where "out = [] \<or> out = fst (notify T (ob\<lparr>state := st\<rparr>) k)"
    by blast
  with assms(2) have "Fn f \<in> set (registered (ob\<lparr>state := st\<rparr>) k)"
    by (auto dest: notify_mem)
  then show ?thesis by (auto simp: registered_def)
qed

lemma subscribe_registered:
  "cb' \<in> set (registered (Observer_subscribe ob key cb) k) \<Longrightarrow>
     cb' \<in> set (registered ob k) \<or> (cb' = cb \<and> key \<noteq> K_countdown)"
  by (auto simp: Observer_subscribe_def registered_def update_conv' split: if_splits option.splits)

lemma step_unregistered:
  assumes "unregistered f ob" "\<forall>k. c = Subscribe k (Fn f) \<longrightarrow> k = K_countdown"
  shows "unregistered f (fst (obs_step T ob c)) \<and> f \<notin> fst ` set (snd (obs_step T ob c))"
proof (cases c)
  case (Set key v)
  obtain ob' out r where r: "Observer_set T ob key v = (ob', out, r)"
    by (cases "Observer_set T ob key v")
  have "subscribers ob' = subscribers ob" using r by (rule set_subscribers)
  then have "unregistered f ob'" using assms(1) by (simp add: unregistered_def registered_def)
  moreover have "f \<notin> fst ` set out"
  proof
    assume "f \<in> fst ` set out"
    then obtain w where "(f, w) \<in> set out" by auto
    from set_calls_registered[OF r this] assms(1)
    show False by (auto simp: unregistered_def)
  qed
  ultimately show ?thesis using Set r by simp
next
  case (Subscribe key cb)
  have "unregistered f (Observer_subscribe ob key cb)"
    unfolding unregistered_def
  proof
    fix k
    show "Fn f \<notin> set (registered (Observer_subscribe ob key cb) k)"
      using subscribe_registered[of "Fn f" ob key cb k] assms Subscribe
      by (auto simp: unregistered_def)
  qed
  with Subscribe show ?thesis by simp
next
  case (Unsubscribe key cb)
  with assms show ?thesis
    by (auto simp: Observer_unsubscribe_def split: option.splits)
qed

lemma run_unregistered:
  assumes "unregistered f ob" "\<forall>k. Subscribe k (Fn f) \<in> set cs \<longrightarrow> k = K_countdown"
  shows "f \<notin> fst ` set (snd (obs_run T ob cs))"
  using assms
proof (induction cs arbitrary: ob)
  case Nil
  then show ?case by simp
next
  case (Cons c cs)
  obtain ob1 out1 where s: "obs_step T ob c = (ob1, out1)" by (cases "obs_step T ob c")
  obtain ob2 out2 where r: "obs_run T ob1 cs = (ob2, out2)" by (cases "obs_run T ob1 cs")
  have "unregistered f ob1 \<and> f \<notin> fst ` set out1"
    using step_unregistered[of f ob c T] Cons.prems s by auto
  moreover from this have "f \<notin> fst ` set out2"
    using Cons.IH[of ob1] Cons.prems(2) r by auto
  ultimately show ?case using s r by auto
qed

lemma new_unregistered: "unregistered f new_Observer"
  by (simp add: unregistered_def registered_def new_Observer_def)

text \<open>
  C10, as the code has it, for keys whose parts are not names of properties of
  \<open>Object.prototype\<close> and for subscribers that do not call the observer themselves.
  \<open>set('countdown', v)\<close> returns the observer unchanged and calls nobody;
  \<open>subscribe('countdown', cb)\<close> returns the observer unchanged; a function that a client
  subscribes under \<open>countdown\<close> only is never called, whatever else the client sets,
  subscribes and unsubscribes on a new observer. For any other key without a dot, \<open>set\<close>
  stores the value under the key and calls the functions registered for that key, in the
  order of registration, with the value, up to and including the first that throws; the
  value stays stored when one throws. For a key \<open>a.b\<close> whose first part holds an object,
  \<open>set\<close> writes the field \<open>b\<close> of that object and calls in the same way the functions
  registered for \<open>a\<close> with the object; if the first part does not hold an object, \<open>set\<close>
  throws a TypeError and changes nothing. Where no function throws on the value, the
  functions called are exactly the functions registered, and nothing is thrown.
\<close>

theorem Observer_set_subscribe_keys:
  "Observer_set T ob K_countdown v = (ob, [], None) \<and>
   Observer_subscribe ob K_countdown cb = ob \<and>
   ((\<forall>k. Subscribe k (Fn f) \<in> set cs \<longrightarrow> k = K_countdown) \<longrightarrow>
      f \<notin> fst ` set (snd (obs_run T new_Observer cs))) \<and>
   (key \<noteq> K_countdown \<and> \<not> dotted key \<longrightarrow>
      Observer_set T ob key v =
        (ob\<lparr>state := AList.update (wholeName key) v (state ob)\<rparr>,
         map (\<lambda>h. (h, v)) (called T (registered ob key) v),
         thrown T (registered ob key) v)) \<and>
   (dotted dkey \<and> getProp (state ob) (part0 dkey) = VObj fs \<longrightarrow>
      Observer_set T ob dkey v =
        (ob\<lparr>state := AList.update (part0 dkey) (VObj (AList.update (part1 dkey) v fs)) (state ob)\<rparr>,
         map (\<lambda>h. (h, VObj (AList.update (part1 dkey) v fs)))
           (called T (registered ob (firstKey dkey)) (VObj (AList.update (part1 dkey) v fs))),
         thrown T (registered ob (firstKey dkey)) (VObj (AList.update (part1 dkey) v fs)))) \<and>
   (dotted dkey \<and> (\<forall>fs. getProp (state ob) (part0 dkey) \<noteq> VObj fs) \<longrightarrow>
      Observer_set T ob dkey v = (ob, [], Some TypeError)) \<and>
   ((\<forall>h. T h v = None) \<longrightarrow>
      called T cbs v = [h. Fn h \<leftarrow> cbs] \<and> thrown T cbs v = None)"
proof (intro conjI impI)
  show "Observer_set T ob K_countdown v = (ob, [], None)" by (rule set_countdown)
  show "Observer_subscribe ob K_countdown cb = ob" by (rule subscribe_countdown)
next
  assume "\<forall>k. Subscribe k (Fn f) \<in> set cs \<longrightarrow> k = K_countdown"
  then show "f \<notin> fst ` set (snd (obs_run T new_Observer cs))"
    by (rule run_unregistered[OF new_unregistered])
next
  assume "key \<noteq> K_countdown \<and> \<not> dotted key"
  then show "Observer_set T ob key v =
        (ob\<lparr>state := AList.update (wholeName key) v (state ob)\<rparr>,
         map (\<lambda>h. (h, v)) (called T (registered ob key) v),
         thrown T (registered ob key) v)"
    by (simp add: set_plain)
next
  assume "dotted dkey \<and> getProp (state ob) (part0 dkey) = VObj fs"
  then show "Observer_set T ob dkey v =
        (ob\<lparr>state := AList.update (part0 dkey) (VObj (AList.update (part1 dkey) v fs)) (state ob)\<rparr>,
         map (\<lambda>h. (h, VObj (AList.update (part1 dkey) v fs)))
           (called T (registered ob (firstKey dkey)) (VObj (AList.update (part1 dkey) v fs))),
         thrown T (registered ob (firstKey dkey)) (VObj (AList.update (part1 dkey) v fs)))"
    by (simp add: set_dotted)
next
  assume "dotted dkey \<and> (\<forall>fs. getProp (state ob) (part0 dkey) \<noteq> VObj fs)"
  then show "Observer_set T ob dkey v = (ob, [], Some TypeError)"
    by (simp add: set_dotted_no_object)
next
  assume "\<forall>h. T h v = None"
  then show "called T cbs v = [h. Fn h \<leftarrow> cbs]" by (simp add: called_quiet)
next
  assume "\<forall>h. T h v = None"
  then show "thrown T cbs v = None" by (simp add: called_quiet)
qed

text \<open>
  The theorem at concrete observers, with the functions of \<open>T_strict\<close>, of which
  function 4 throws on a number. The function 5, subscribed under \<open>countdown\<close>, is not
  called by the calls of \<open>calls_countdown\<close>. On \<open>ob_room\<close>, \<open>set('ready', true)\<close> stores
  the flag and, nobody being registered for \<open>ready\<close>, calls nobody, and
  \<open>set('room.multiple', true)\<close> writes the field of the room and calls the title bar. On
  \<open>ob_three\<close>, \<open>set('ready', 1)\<close> stores the number and calls the functions 3 and 4 but
  not 6, since 4 throws, and \<open>set('ready', true)\<close> calls all three. On a new observer
  \<open>set('room.multiple', 2)\<close> throws.
\<close>

theorem Observer_set_subscribe_keys_witness:
  "{k. Subscribe k (Fn 5) \<in> set calls_countdown} = {K_countdown} \<and>
   5 \<notin> fst ` set (snd (obs_run T_strict new_Observer calls_countdown)) \<and>
   K_ready \<noteq> K_countdown \<and> \<not> dotted K_ready \<and>
   Observer_set T_strict ob_room K_ready (VBool True) =
     (ob_room\<lparr>state := state ob_room @ [(wholeName K_ready, VBool True)]\<rparr>, [], None) \<and>
   dotted K_room_multiple \<and>
   getProp (state ob_room) (part0 K_room_multiple) = VObj [(N_id, VNum 1), (N_multiple, VNum 1)] \<and>
   Observer_set T_strict ob_room K_room_multiple (VBool True) =
     (ob_room\<lparr>state := [(wholeName K_room, VObj [(N_id, VNum 1), (N_multiple, VBool True)])]\<rparr>,
      [(0, VObj [(N_id, VNum 1), (N_multiple, VBool True)])], None) \<and>
   Observer_set T_strict ob_three K_ready (VNum 1) =
     (ob_three\<lparr>state := [(wholeName K_ready, VNum 1)]\<rparr>,
      [(3, VNum 1), (4, VNum 1)], Some (Exception 1)) \<and>
   (\<forall>h. T_strict h (VBool True) = None) \<and>
   Observer_set T_strict ob_three K_ready (VBool True) =
     (ob_three\<lparr>state := [(wholeName K_ready, VBool True)]\<rparr>,
      [(3, VBool True), (4, VBool True), (6, VBool True)], None) \<and>
   (\<forall>fs. getProp (state new_Observer) (part0 K_room_multiple) \<noteq> VObj fs) \<and>
   Observer_set T_strict new_Observer K_room_multiple (VNum 2) =
     (new_Observer, [], Some TypeError)"
proof -
  have h1: "\<forall>k. Subscribe k (Fn 5) \<in> set calls_countdown \<longrightarrow> k = K_countdown"
    by (simp add: calls_countdown_def)
  have h1': "{k. Subscribe k (Fn 5) \<in> set calls_countdown} = {K_countdown}"
    by (auto simp: calls_countdown_def)
  have h2: "K_ready \<noteq> K_countdown \<and> \<not> dotted K_ready"
    using scene_keys by simp
  have h3: "dotted K_room_multiple \<and>
      getProp (state ob_room) (part0 K_room_multiple) = VObj [(N_id, VNum 1), (N_multiple, VNum 1)]"
    by (simp add: room_multiple_parts ob_room_def getProp_def)
  have h4: "\<forall>h. T_strict h (VBool True) = None"
    by (simp add: T_strict_def)
  have h5: "dotted K_room_multiple \<and>
      (\<forall>fs. getProp (state new_Observer) (part0 K_room_multiple) \<noteq> VObj fs)"
    by (simp add: room_multiple_parts new_Observer_def getProp_def)
  note t = Observer_set_subscribe_keys[of T_strict ob_room "VBool True" "Fn 5" 5 calls_countdown
      K_ready K_room_multiple "[(N_id, VNum 1), (N_multiple, VNum 1)]" "[Fn 3, Falsy, Fn 4, Fn 6]"]
  note t3 = Observer_set_subscribe_keys[of T_strict ob_three "VNum 1" "Fn 5" 5 calls_countdown
      K_ready K_room_multiple "[]" "[]"]
  note t4 = Observer_set_subscribe_keys[of T_strict ob_three "VBool True" "Fn 5" 5 calls_countdown
      K_ready K_room_multiple "[]" "[]"]
  note t5 = Observer_set_subscribe_keys[of T_strict new_Observer "VNum 2" "Fn 5" 5 calls_countdown
      K_ready K_room_multiple "[]" "[]"]
  from t h1 have c1: "5 \<notin> fst ` set (snd (obs_run T_strict new_Observer calls_countdown))"
    by blast
  from t h2 have c2: "Observer_set T_strict ob_room K_ready (VBool True) =
      (ob_room\<lparr>state := AList.update (wholeName K_ready) (VBool True) (state ob_room)\<rparr>,
       map (\<lambda>h. (h, VBool True)) (called T_strict (registered ob_room K_ready) (VBool True)),
       thrown T_strict (registered ob_room K_ready) (VBool True))"
    by blast
  from t h3 have c3: "Observer_set T_strict ob_room K_room_multiple (VBool True) =
      (ob_room\<lparr>state := AList.update (part0 K_room_multiple)
            (VObj (AList.update (part1 K_room_multiple) (VBool True)
               [(N_id, VNum 1), (N_multiple, VNum 1)])) (state ob_room)\<rparr>,
       map (\<lambda>h. (h, VObj (AList.update (part1 K_room_multiple) (VBool True)
               [(N_id, VNum 1), (N_multiple, VNum 1)])))
         (called T_strict (registered ob_room (firstKey K_room_multiple))
            (VObj (AList.update (part1 K_room_multiple) (VBool True)
               [(N_id, VNum 1), (N_multiple, VNum 1)]))),
       thrown T_strict (registered ob_room (firstKey K_room_multiple))
         (VObj (AList.update (part1 K_room_multiple) (VBool True)
            [(N_id, VNum 1), (N_multiple, VNum 1)])))"
    by blast
  from t h4 have c4: "called T_strict [Fn 3, Falsy, Fn 4, Fn 6] (VBool True) =
      [h. Fn h \<leftarrow> [Fn 3, Falsy, Fn 4, Fn 6]]"
    by blast
  from t3 h2 have c5: "Observer_set T_strict ob_three K_ready (VNum 1) =
      (ob_three\<lparr>state := AList.update (wholeName K_ready) (VNum 1) (state ob_three)\<rparr>,
       map (\<lambda>h. (h, VNum 1)) (called T_strict (registered ob_three K_ready) (VNum 1)),
       thrown T_strict (registered ob_three K_ready) (VNum 1))"
    by blast
  from t4 h2 have c6: "Observer_set T_strict ob_three K_ready (VBool True) =
      (ob_three\<lparr>state := AList.update (wholeName K_ready) (VBool True) (state ob_three)\<rparr>,
       map (\<lambda>h. (h, VBool True)) (called T_strict (registered ob_three K_ready) (VBool True)),
       thrown T_strict (registered ob_three K_ready) (VBool True))"
    by blast
  from t5 h5 have c7: "Observer_set T_strict new_Observer K_room_multiple (VNum 2) =
      (new_Observer, [], Some TypeError)"
    by blast
  have x2: "(ob_room\<lparr>state := AList.update (wholeName K_ready) (VBool True) (state ob_room)\<rparr>,
       map (\<lambda>h. (h, VBool True)) (called T_strict (registered ob_room K_ready) (VBool True)),
       thrown T_strict (registered ob_room K_ready) (VBool True)) =
      (ob_room\<lparr>state := state ob_room @ [(wholeName K_ready, VBool True)]\<rparr>, [], None)"
    by code_simp
  have x3: "(ob_room\<lparr>state := AList.update (part0 K_room_multiple)
            (VObj (AList.update (part1 K_room_multiple) (VBool True)
               [(N_id, VNum 1), (N_multiple, VNum 1)])) (state ob_room)\<rparr>,
       map (\<lambda>h. (h, VObj (AList.update (part1 K_room_multiple) (VBool True)
               [(N_id, VNum 1), (N_multiple, VNum 1)])))
         (called T_strict (registered ob_room (firstKey K_room_multiple))
            (VObj (AList.update (part1 K_room_multiple) (VBool True)
               [(N_id, VNum 1), (N_multiple, VNum 1)]))),
       thrown T_strict (registered ob_room (firstKey K_room_multiple))
         (VObj (AList.update (part1 K_room_multiple) (VBool True)
            [(N_id, VNum 1), (N_multiple, VNum 1)]))) =
      (ob_room\<lparr>state := [(wholeName K_room, VObj [(N_id, VNum 1), (N_multiple, VBool True)])]\<rparr>,
       [(0, VObj [(N_id, VNum 1), (N_multiple, VBool True)])], None)"
    by code_simp
  have x5: "(ob_three\<lparr>state := AList.update (wholeName K_ready) (VNum 1) (state ob_three)\<rparr>,
       map (\<lambda>h. (h, VNum 1)) (called T_strict (registered ob_three K_ready) (VNum 1)),
       thrown T_strict (registered ob_three K_ready) (VNum 1)) =
      (ob_three\<lparr>state := [(wholeName K_ready, VNum 1)]\<rparr>,
       [(3, VNum 1), (4, VNum 1)], Some (Exception 1))"
    by code_simp
  have r3: "registered ob_three K_ready = [Fn 3, Falsy, Fn 4, Fn 6]"
    by code_simp
  have e4: "thrown T_strict [Fn 3, Falsy, Fn 4, Fn 6] (VBool True) = None"
    using t h4 by blast
  have x6: "(ob_three\<lparr>state := AList.update (wholeName K_ready) (VBool True) (state ob_three)\<rparr>,
       map (\<lambda>h. (h, VBool True)) [h. Fn h \<leftarrow> [Fn 3, Falsy, Fn 4, Fn 6]], None :: error option) =
      (ob_three\<lparr>state := [(wholeName K_ready, VBool True)]\<rparr>,
       [(3, VBool True), (4, VBool True), (6, VBool True)], None)"
    by code_simp
  have c2': "Observer_set T_strict ob_room K_ready (VBool True) =
      (ob_room\<lparr>state := state ob_room @ [(wholeName K_ready, VBool True)]\<rparr>, [], None)"
    by (simp only: c2 x2)
  have c3': "Observer_set T_strict ob_room K_room_multiple (VBool True) =
      (ob_room\<lparr>state := [(wholeName K_room, VObj [(N_id, VNum 1), (N_multiple, VBool True)])]\<rparr>,
       [(0, VObj [(N_id, VNum 1), (N_multiple, VBool True)])], None)"
    by (simp only: c3 x3)
  have c5': "Observer_set T_strict ob_three K_ready (VNum 1) =
      (ob_three\<lparr>state := [(wholeName K_ready, VNum 1)]\<rparr>,
       [(3, VNum 1), (4, VNum 1)], Some (Exception 1))"
    by (simp only: c5 x5)
  have c6': "Observer_set T_strict ob_three K_ready (VBool True) =
      (ob_three\<lparr>state := [(wholeName K_ready, VBool True)]\<rparr>,
       [(3, VBool True), (4, VBool True), (6, VBool True)], None)"
    by (simp only: c6 r3 c4 e4 x6)
  show ?thesis
    using h1' h2 h3 h4 h5 c1 c2' c3' c5' c6' c7 by blast
qed

text \<open>
  C10 as stated fails for a key with a dot. On \<open>ob_room\<close> the function 7 is registered
  for the key \<open>room.multiple\<close> and the function 0 for \<open>room\<close>;
  \<open>set('room.multiple', 2)\<close> stores nothing under the key \<open>room.multiple\<close>, does not call
  7, and calls 0.
\<close>

theorem Observer_set_dotted_key_counterexample:
  "registered ob_room K_room_multiple = [Fn 7] \<and>
   Observer_set T_quiet ob_room K_room_multiple (VNum 2) =
     (ob_room\<lparr>state := [(wholeName K_room, VObj [(N_id, VNum 1), (N_multiple, VNum 2)])]\<rparr>,
      [(0, VObj [(N_id, VNum 1), (N_multiple, VNum 2)])], None)"
  by code_simp

section \<open>Properties of the scene\<close>

lemma uidToSeat_3:
  "length ps = 3 \<Longrightarrow> uidToSeat ps u =
     Inr (if u = uid (ps ! 0) then 0 else if u = uid (ps ! 1) then 1
          else if u = uid (ps ! 2) then 2 else - 1)"
  by (simp add: uidToSeat_def eval_nat_numeral)

lemma uidToSeat_from_range:
  "uidToSeat_from n i ps u = Inr s \<Longrightarrow>
     s = - 1 \<or> (int i \<le> s \<and> s < int (i + n) \<and> nat s < length ps \<and> uid (ps ! nat s) = u)"
  by (induction n i ps u rule: uidToSeat_from.induct) (auto split: if_splits)

lemma uidToSeat_range:
  "uidToSeat ps u = Inr s \<Longrightarrow> 0 \<le> s \<Longrightarrow> s < 3 \<and> nat s < length ps \<and> uid (ps ! nat s) = u"
  using uidToSeat_from_range[of 3 0 ps u s] by (auto simp: uidToSeat_def)

lemma playerAt_seat:
  "uidToSeat ps u = Inr s \<Longrightarrow> 0 \<le> s \<Longrightarrow> playerAt ps s = Some (ps ! nat s)"
  using uidToSeat_range[of ps u s] by (auto simp: playerAt_def)

lemma length_mapHand [simp]: "length (mapHand i f ps) = length ps"
  by (simp add: mapHand_def)

lemma nth_mapHand:
  "j < length ps \<Longrightarrow> mapHand i f ps ! j =
     (if j = i then (ps ! j)\<lparr>pokerInHand := f (pokerInHand (ps ! j))\<rparr> else ps ! j)"
  by (simp add: mapHand_def)

lemma length_push [simp]: "length (push i v ps) = length ps"
  by (simp add: push_def)

lemma nth_push:
  "j < length ps \<Longrightarrow> push i v ps ! j =
     (if j = i then (ps ! j)\<lparr>pokerInHand := pokerInHand (ps ! j) @ [v]\<rparr> else ps ! j)"
  by (simp add: push_def nth_mapHand)

lemma popped_Suc:
  "popped (Suc n) pokers = fst (js_pop pokers) # popped n (snd (js_pop pokers))"
proof (cases pokers rule: rev_cases)
  case Nil
  then show ?thesis by (simp add: popped_def js_pop_def)
next
  case (snoc ys y)
  then show ?thesis by (simp add: popped_def js_pop_def)
qed

lemma length_dealLoop [simp]: "length (dealLoop n pokers ps) = length ps"
  by (induction n pokers ps rule: dealLoop.induct) (auto split: prod.splits)

lemma dealLoop_nth:
  assumes "3 \<le> length ps" "j < length ps"
  shows "dealLoop n pokers ps ! j =
     (if j = 0 then (ps ! j)\<lparr>pokerInHand := pokerInHand (ps ! j) @ popped n pokers\<rparr>
      else if j = 1 \<or> j = 2 then (ps ! j)\<lparr>pokerInHand := pokerInHand (ps ! j) @ replicate n (VNum 55)\<rparr>
      else ps ! j)"
  using assms
proof (induction n pokers ps rule: dealLoop.induct)
  case (1 pokers ps)
  then show ?case by (simp add: popped_def)
next
  case (2 n pokers ps)
  obtain c rest where p: "js_pop pokers = (c, rest)" by (cases "js_pop pokers")
  let ?ps = "push 0 c (push 1 (VNum 55) (push 2 (VNum 55) ps))"
  have ih: "dealLoop n rest ?ps ! j =
     (if j = 0 then (?ps ! j)\<lparr>pokerInHand := pokerInHand (?ps ! j) @ popped n rest\<rparr>
      else if j = 1 \<or> j = 2 then (?ps ! j)\<lparr>pokerInHand := pokerInHand (?ps ! j) @ replicate n (VNum 55)\<rparr>
      else ?ps ! j)"
    using 2 p by simp
  have ps: "?ps ! j =
     (if j = 0 then (ps ! j)\<lparr>pokerInHand := pokerInHand (ps ! j) @ [c]\<rparr>
      else if j = 1 \<or> j = 2 then (ps ! j)\<lparr>pokerInHand := pokerInHand (ps ! j) @ [VNum 55]\<rparr>
      else ps ! j)"
    using 2(2,3) by (auto simp: nth_push)
  have pop: "popped (Suc n) pokers = c # popped n rest"
    using popped_Suc[of n pokers] p by simp
  show ?case
    using ih ps pop p by (auto simp: replicate_append_same)
qed

lemma dealPoker_hand:
  assumes "length (players g) = 3" "j < 3"
  shows "dealPoker P g pokers = Done (after (dealPoker P g pokers)) \<and>
     hand (after (dealPoker P g pokers)) j =
       playerDealPoker P j
         (hand g j @ (if j = 0 then popped 17 pokers else replicate 17 (VNum 55)))"
proof -
  have j: "j = 0 \<or> j = 1 \<or> j = 2" using assms(2) by auto
  show ?thesis
    using assms(1) j dealLoop_nth[of "players g" j 17 pokers]
    by (auto simp: dealPoker_def Let_def hand_def nth_mapHand)
qed


lemma g_created_eq:
  "g_created =
     \<lparr> players = [\<lparr> uid = 1, name = ''me'', pokerInHand = [], isLandlord = False \<rparr>,
                  \<lparr> uid = - 1, name = [], pokerInHand = [], isLandlord = False \<rparr>,
                  \<lparr> uid = - 1, name = [], pokerInHand = [], isLandlord = False \<rparr>],
       tablePoker = [], tablePokerPic = [], lastShotPlayer = None, whoseTurn = 0,
       obs = \<lparr> state = [],
               subscribers = [(K_room, [Fn 0]), (K_ready, [Fn 1]), (K_rob, [Fn 2])] \<rparr>,
       notified = [], scheduled = [], sent = [], prompted = [] \<rparr>"
  by code_simp

lemma g_joined_eq:
  "g_joined =
     \<lparr> players = [\<lparr> uid = 1, name = ''me'', pokerInHand = [], isLandlord = False \<rparr>,
                  \<lparr> uid = 2, name = ''ai2'', pokerInHand = [], isLandlord = False \<rparr>,
                  \<lparr> uid = 3, name = ''ai3'', pokerInHand = [], isLandlord = False \<rparr>],
       tablePoker = [], tablePokerPic = [], lastShotPlayer = None, whoseTurn = 0,
       obs = \<lparr> state = [(wholeName K_room, room_1)],
               subscribers = [(K_room, [Fn 0]), (K_ready, [Fn 1]), (K_rob, [Fn 2])] \<rparr>,
       notified = [(0, room_1)], scheduled = [], sent = [], prompted = [] \<rparr>"
  by code_simp

lemma g_dealt_eq:
  "g_dealt =
     \<lparr> players = [\<lparr> uid = 1, name = ''me'', pokerInHand = rev pokers_17, isLandlord = False \<rparr>,
                  \<lparr> uid = 2, name = ''ai2'', pokerInHand = replicate 17 (VNum 55), isLandlord = False \<rparr>,
                  \<lparr> uid = 3, name = ''ai3'', pokerInHand = replicate 17 (VNum 55), isLandlord = False \<rparr>],
       tablePoker = [], tablePokerPic = [VNum 55], lastShotPlayer = None, whoseTurn = 0,
       obs = \<lparr> state = [(wholeName K_room, room_1), (wholeName K_rob, VBool True)],
               subscribers = [(K_room, [Fn 0]), (K_ready, [Fn 1]), (K_rob, [Fn 2])] \<rparr>,
       notified = [(0, room_1), (2, VBool True)], scheduled = [], sent = [], prompted = [] \<rparr>"
  by code_simp

text \<open>
  C6, as the code has it. \<open>dealPoker\<close> does not look at the size of the packet: on a
  scene with its three players it always returns, and it pushes exactly seventeen
  entries on each hand (laying a hand out is taken to keep its entries). The local hand
  receives the last seventeen cards of the packet; a packet of fewer cards is filled up
  with \<open>undefined\<close>, of a packet of more cards the first ones are not dealt. With exactly
  seventeen cards the local hand receives all of them.
\<close>

theorem dealPoker_any_size:
  assumes "length (players g) = 3"
    and "\<forall>seat h. mset (playerDealPoker P seat h) = mset h"
  shows "returned (dealPoker P g pokers) \<and>
     mset (hand (after (dealPoker P g pokers)) 0) =
       mset (hand g 0) + mset (take 17 (rev pokers)) +
       mset (replicate (17 - length pokers) VUndef) \<and>
     mset (hand (after (dealPoker P g pokers)) 1) =
       mset (hand g 1) + mset (replicate 17 (VNum 55)) \<and>
     mset (hand (after (dealPoker P g pokers)) 2) =
       mset (hand g 2) + mset (replicate 17 (VNum 55)) \<and>
     length (hand (after (dealPoker P g pokers)) 0) = length (hand g 0) + 17 \<and>
     length (hand (after (dealPoker P g pokers)) 1) = length (hand g 1) + 17 \<and>
     length (hand (after (dealPoker P g pokers)) 2) = length (hand g 2) + 17 \<and>
     (length pokers = 17 \<longrightarrow>
        mset (hand (after (dealPoker P g pokers)) 0) = mset (hand g 0) + mset pokers)"
proof -
  let ?g = "after (dealPoker P g pokers)"
  have d: "dealPoker P g pokers = Done ?g"
    using dealPoker_hand[OF assms(1), of 0] by simp
  have r: "returned (dealPoker P g pokers)"
    by (subst d) simp
  have h0: "mset (hand ?g 0) = mset (hand g 0 @ popped 17 pokers)"
    using dealPoker_hand[OF assms(1), of 0 P pokers] assms(2) by simp
  have h1: "mset (hand ?g 1) = mset (hand g 1 @ replicate 17 (VNum 55))"
    using dealPoker_hand[OF assms(1), of 1 P pokers] assms(2) by simp
  have h2: "mset (hand ?g 2) = mset (hand g 2 @ replicate 17 (VNum 55))"
    using dealPoker_hand[OF assms(1), of 2 P pokers] assms(2) by simp
  have l: "length (popped 17 pokers) = 17"
    by (simp add: popped_def)
  have l0: "length (hand ?g 0) = length (hand g 0) + 17"
    using mset_eq_length[OF h0] l by simp
  have l1: "length (hand ?g 1) = length (hand g 1) + 17"
    using mset_eq_length[OF h1] by simp
  have l2: "length (hand ?g 2) = length (hand g 2) + 17"
    using mset_eq_length[OF h2] by simp
  have e: "length pokers = 17 \<Longrightarrow> popped 17 pokers = rev pokers"
    by (simp add: popped_def)
  have m0: "mset (hand ?g 0) = mset (hand g 0) + mset (take 17 (rev pokers)) +
       mset (replicate (17 - length pokers) VUndef)"
    using h0 by (simp add: popped_def)
  have m1: "mset (hand ?g 1) = mset (hand g 1) + mset (replicate 17 (VNum 55))"
    using h1 by simp
  have m2: "mset (hand ?g 2) = mset (hand g 2) + mset (replicate 17 (VNum 55))"
    using h2 by simp
  have m17: "mset (hand ?g 0) = mset (hand g 0) + mset pokers" if "length pokers = 17"
    using h0 e[OF that] by simp
  show ?thesis
    using r m0 m1 m2 l0 l1 l2 m17 by blast
qed

text \<open>
  The theorem on the joined scene and the packet of the cards 1 to 17.
\<close>

theorem dealPoker_any_size_witness:
  "length (players g_joined) = 3 \<and> length pokers_17 = 17 \<and>
   (\<forall>seat h. mset (playerDealPoker spec_ops seat h) = mset h) \<and>
   returned (dealPoker spec_ops g_joined pokers_17) \<and>
   mset (hand (after (dealPoker spec_ops g_joined pokers_17)) 0) = mset pokers_17 \<and>
   length (hand (after (dealPoker spec_ops g_joined pokers_17)) 0) = 17 \<and>
   length (hand (after (dealPoker spec_ops g_joined pokers_17)) 1) = 17 \<and>
   length (hand (after (dealPoker spec_ops g_joined pokers_17)) 2) = 17"
proof -
  have l: "length (players g_joined) = 3" by (simp add: g_joined_eq)
  have p: "length pokers_17 = 17" by (simp add: pokers_17_def)
  have so: "\<forall>seat h. mset (playerDealPoker spec_ops seat h) = mset h"
    by (simp add: spec_ops_def)
  have h: "hand g_joined 0 = [] \<and> hand g_joined 1 = [] \<and> hand g_joined 2 = []"
    by (simp add: g_joined_eq hand_def)
  show ?thesis
    using dealPoker_any_size[OF l so, of pokers_17] l p so h by simp
qed

text \<open>
  C6 as stated fails: a deal of sixteen cards is not an error. The handler returns, and
  the local hand holds seventeen entries, one of them \<open>undefined\<close>.
\<close>

theorem deal_16_cards_counterexample:
  "length pokers_16 = 16 \<and>
   returned (onmessage spec_ops g_joined (RSP_DEAL_POKER 1 pokers_16)) \<and>
   length (hand (after (onmessage spec_ops g_joined (RSP_DEAL_POKER 1 pokers_16))) 0) = 17 \<and>
   VUndef \<in> set (hand (after (onmessage spec_ops g_joined (RSP_DEAL_POKER 1 pokers_16))) 0)"
  by code_simp

text \<open>
  C1, as the code has it. The scene does not hold the deck: it is told the local hand
  only, stands the card back \<open>55\<close> in for every card of a peer, and keeps no record of the
  cards played. Right after the deal of seventeen distinct deck cards onto empty hands
  (laying a hand out is taken to keep its entries), the local hand holds exactly the
  dealt cards, each peer hand holds seventeen copies of \<open>55\<close>, which is not an id of the
  deck, and every id of the deck occurs in the three hands once if it was dealt and not
  at all otherwise: no id of the deck is in the hands of two seats.
\<close>

theorem dealPoker_hands_after_deal:
  assumes "length (players g) = 3"
    and "hand g 0 = []" and "hand g 1 = []" and "hand g 2 = []"
    and "length pokers = 17" and "distinct pokers" and "\<forall>c \<in> set pokers. deckCard c"
    and "\<forall>seat h. mset (playerDealPoker P seat h) = mset h"
  shows "returned (dealPoker P g pokers) \<and>
     mset (hand (after (dealPoker P g pokers)) 0) = mset pokers \<and>
     mset (hand (after (dealPoker P g pokers)) 1) = mset (replicate 17 (VNum 55)) \<and>
     mset (hand (after (dealPoker P g pokers)) 2) = mset (replicate 17 (VNum 55)) \<and>
     \<not> deckCard (VNum 55) \<and>
     (\<forall>c. deckCard c \<longrightarrow>
        count (mset (hand (after (dealPoker P g pokers)) 0) +
               mset (hand (after (dealPoker P g pokers)) 1) +
               mset (hand (after (dealPoker P g pokers)) 2)) c =
          (if c \<in> set pokers then 1 else 0))"
proof -
  let ?g = "after (dealPoker P g pokers)"
  have d: "dealPoker P g pokers = Done ?g"
    using dealPoker_hand[OF assms(1), of 0] by simp
  have r: "returned (dealPoker P g pokers)"
    by (subst d) simp
  have p: "popped 17 pokers = rev pokers"
    using assms(5) by (simp add: popped_def)
  have h0: "mset (hand ?g 0) = mset pokers"
    using dealPoker_hand[OF assms(1), of 0 P pokers] assms(2,8) p by simp
  have h1: "mset (hand ?g 1) = mset (replicate 17 (VNum 55))"
    using dealPoker_hand[OF assms(1), of 1 P pokers] assms(3,8) by simp
  have h2: "mset (hand ?g 2) = mset (replicate 17 (VNum 55))"
    using dealPoker_hand[OF assms(1), of 2 P pokers] assms(4,8) by simp
  have c: "count (mset (hand ?g 0) + mset (hand ?g 1) + mset (hand ?g 2)) c =
      (if c \<in> set pokers then 1 else 0)" if "deckCard c" for c
  proof -
    have "c \<noteq> VNum 55" using that by auto
    then have "count (mset (replicate 17 (VNum 55))) c = 0" by simp
    moreover have "count (mset pokers) c = (if c \<in> set pokers then 1 else 0)"
      using assms(6) by (simp add: distinct_count_atmost_1)
    ultimately show ?thesis unfolding h0 h1 h2 by simp
  qed
  have n: "\<not> deckCard (VNum 55)" by simp
  show ?thesis
    using r h0 h1 h2 c n by blast
qed

text \<open>The theorem on the joined scene and the packet of the cards 1 to 17.\<close>

theorem dealPoker_hands_after_deal_witness:
  "length (players g_joined) = 3 \<and>
   hand g_joined 0 = [] \<and> hand g_joined 1 = [] \<and> hand g_joined 2 = [] \<and>
   length pokers_17 = 17 \<and> distinct pokers_17 \<and> list_all deckCard pokers_17 \<and>
   (\<forall>seat h. mset (playerDealPoker spec_ops seat h) = mset h) \<and>
   deckCard (VNum 3) \<and> deckCard (VNum 40) \<and>
   mset (hand (after (dealPoker spec_ops g_joined pokers_17)) 0) = mset pokers_17 \<and>
   mset (hand (after (dealPoker spec_ops g_joined pokers_17)) 1) =
     mset (replicate 17 (VNum 55)) \<and>
   count (mset (hand (after (dealPoker spec_ops g_joined pokers_17)) 0) +
          mset (hand (after (dealPoker spec_ops g_joined pokers_17)) 1) +
          mset (hand (after (dealPoker spec_ops g_joined pokers_17)) 2)) (VNum 3) = 1 \<and>
   count (mset (hand (after (dealPoker spec_ops g_joined pokers_17)) 0) +
          mset (hand (after (dealPoker spec_ops g_joined pokers_17)) 1) +
          mset (hand (after (dealPoker spec_ops g_joined pokers_17)) 2)) (VNum 40) = 0"
proof -
  have l: "length (players g_joined) = 3" by (simp add: g_joined_eq)
  have h0: "hand g_joined 0 = []" and h1: "hand g_joined 1 = []" and h2: "hand g_joined 2 = []"
    by (simp_all add: g_joined_eq hand_def)
  have p: "length pokers_17 = 17" by (simp add: pokers_17_def)
  have di: "distinct pokers_17" by (simp add: pokers_17_def)
  have dk: "\<forall>c \<in> set pokers_17. deckCard c" by (simp add: pokers_17_def)
  have dk': "list_all deckCard pokers_17" using dk by (simp add: list_all_iff)
  have so: "\<forall>seat h. mset (playerDealPoker spec_ops seat h) = mset h"
    by (simp add: spec_ops_def)
  have m: "VNum 3 \<in> set pokers_17 \<and> VNum 40 \<notin> set pokers_17" by (simp add: pokers_17_def)
  note t = dealPoker_hands_after_deal[OF l h0 h1 h2 p di dk so]
  from t have a: "\<forall>c. deckCard c \<longrightarrow>
        count (mset (hand (after (dealPoker spec_ops g_joined pokers_17)) 0) +
               mset (hand (after (dealPoker spec_ops g_joined pokers_17)) 1) +
               mset (hand (after (dealPoker spec_ops g_joined pokers_17)) 2)) c =
          (if c \<in> set pokers_17 then 1 else 0)"
    by blast
  have d3: "deckCard (VNum 3)" and d40: "deckCard (VNum 40)" by simp_all
  have c3: "count (mset (hand (after (dealPoker spec_ops g_joined pokers_17)) 0) +
          mset (hand (after (dealPoker spec_ops g_joined pokers_17)) 1) +
          mset (hand (after (dealPoker spec_ops g_joined pokers_17)) 2)) (VNum 3) = 1"
    using a d3 m by (simp del: deckCard.simps)
  have c40: "count (mset (hand (after (dealPoker spec_ops g_joined pokers_17)) 0) +
          mset (hand (after (dealPoker spec_ops g_joined pokers_17)) 1) +
          mset (hand (after (dealPoker spec_ops g_joined pokers_17)) 2)) (VNum 40) = 0"
    using a d40 m by (simp del: deckCard.simps)
  from t have b: "mset (hand (after (dealPoker spec_ops g_joined pokers_17)) 0) = mset pokers_17 \<and>
     mset (hand (after (dealPoker spec_ops g_joined pokers_17)) 1) =
       mset (replicate 17 (VNum 55))"
    by blast
  show ?thesis
    using l h0 h1 h2 p di dk' so d3 d40 b c3 c40 by blast
qed

text \<open>
  C1 as stated fails on the dealt scene: the id \<open>55\<close> is in the hands of seat 1 and of
  seat 2 at once, and the deck card 54 is in no hand and not on the table.
\<close>

theorem dealt_hands_counterexample:
  "VNum 55 \<in> set (hand g_dealt 1) \<and> VNum 55 \<in> set (hand g_dealt 2) \<and>
   deckCard (VNum 54) \<and> count (held g_dealt) (VNum 54) = 0"
  by (simp add: g_dealt_eq hand_def held_def pokers_17_def)

lemma takeCards_found:
  "fst (takeCards P s cs h) \<Longrightarrow> snd (takeCards P s cs h) = fold (removeAPoker P s) cs h"
  by (induction cs arbitrary: h) (auto split: if_splits)

lemma hasPic_cong: "tablePokerPic g' = tablePokerPic g \<Longrightarrow> hasPic g' = hasPic g"
  by (auto simp: hasPic_def fun_eq_iff)

lemma handleShotPoker_pass_any:
  assumes "uidToSeat (players g) u = Inr s" "0 \<le> s"
  shows "handleShotPoker P g u [] =
     (if hand g (nat s) \<noteq> [] then
        Done (if (s + 1) mod 3 = 0
              then g\<lparr>whoseTurn := 0, scheduled := scheduled g @ [(1000, StartPlay)]\<rparr>
              else g\<lparr>whoseTurn := (s + 1) mod 3\<rparr>)
      else Done (g\<lparr>whoseTurn := s\<rparr>))"
  using assms playerAt_seat[OF assms]
  by (simp add: handleShotPoker_def Let_def hand_def)


lemma handleShotPoker_play:
  assumes "uidToSeat (players g) u = Inr s" "0 \<le> s" "pokers \<noteq> []"
    "playable P g (nat s) pokers"
  shows "handleShotPoker P g u pokers =
     (let g3 = g\<lparr>whoseTurn := s,
                 players := mapHand (nat s)
                   (\<lambda>h. arrangePoker P (nat s)
                          (fold (removeAPoker P (nat s)) (sortPlay P pokers) h)) (players g),
                 tablePoker := sortPlay P pokers,
                 tablePokerPic := fold addPic (sortPlay P pokers) [],
                 lastShotPlayer := Some (nat s)\<rparr>
      in if pokerInHand (players g3 ! nat s) \<noteq> [] then
           Done (let g4 = g3\<lparr>whoseTurn := (s + 1) mod 3\<rparr>
                 in if whoseTurn g4 = 0
                    then g4\<lparr>scheduled := scheduled g4 @ [(1000, StartPlay)]\<rparr> else g4)
         else Done g3)"
proof -
  have r: "nat s < length (players g)"
    using uidToSeat_range[OF assms(1,2)] by simp
  have f: "fst (takeCards P (nat s) (sortPlay P pokers) (pokerInHand (players g ! nat s)))"
    using assms(4) by (simp add: playable_def hand_def)
  note t = takeCards_found[OF f]
  have p: "list_all (hasPic g) (tablePoker g)"
    using assms(4) by (simp add: playable_def)
  have h: "hasPic (g\<lparr>whoseTurn := s, players := ps\<rparr>) = hasPic g" for ps
    by (rule hasPic_cong) simp
  show ?thesis
    using assms(1,3) playerAt_seat[OF assms(1,2)] f t p r
    by (simp add: handleShotPoker_def Let_def h mapHand_def)
qed

lemma handleShotPoker_throw:
  assumes "uidToSeat (players g) u = Inr s" "0 \<le> s" "pokers \<noteq> []"
    "\<not> playable P g (nat s) pokers"
  shows "handleShotPoker P g u pokers =
     Threw TypeError
       (g\<lparr>whoseTurn := s,
          players := mapHand (nat s)
            (\<lambda>h. snd (takeCards P (nat s) (sortPlay P pokers) (hand g (nat s)))) (players g)\<rparr>)"
proof -
  have h: "hasPic (g\<lparr>whoseTurn := s, players := ps\<rparr>) = hasPic g" for ps
    by (rule hasPic_cong) simp
  have n: "\<not> fst (takeCards P (nat s) (sortPlay P pokers) (pokerInHand (players g ! nat s))) \<or>
      \<not> list_all (hasPic g) (tablePoker g)"
    using assms(4) by (simp add: playable_def hand_def)
  show ?thesis
    using assms(1,3) playerAt_seat[OF assms(1,2)] n
    by (auto simp: handleShotPoker_def Let_def h hand_def)
qed

lemma handleShotPoker_applied:
  assumes "uidToSeat (players g) u = Inr s" "0 \<le> s"
    "pokers = [] \<or> playable P g (nat s) pokers"
  shows "returned (handleShotPoker P g u pokers) \<and>
     tablePoker (after (handleShotPoker P g u pokers)) =
       (if pokers = [] then tablePoker g else sortPlay P pokers) \<and>
     lastShotPlayer (after (handleShotPoker P g u pokers)) =
       (if pokers = [] then lastShotPlayer g else Some (nat s)) \<and>
     hand (after (handleShotPoker P g u pokers)) (nat s) =
       (if pokers = [] then hand g (nat s)
        else arrangePoker P (nat s)
               (fold (removeAPoker P (nat s)) (sortPlay P pokers) (hand g (nat s)))) \<and>
     (\<forall>j. j \<noteq> nat s \<longrightarrow> hand (after (handleShotPoker P g u pokers)) j = hand g j)"
proof (cases "pokers = []")
  case True
  then show ?thesis
    by (simp add: handleShotPoker_pass_any[OF assms(1,2)] hand_def)
next
  case False
  have r: "nat s < length (players g)"
    using uidToSeat_range[OF assms(1,2)] by simp
  from False assms(3) have p: "playable P g (nat s) pokers" by simp
  show ?thesis
    using False r
    by (simp add: handleShotPoker_play[OF assms(1,2) False p] Let_def hand_def mapHand_def)
qed

lemma handleShotPoker_advance:
  assumes "uidToSeat (players g) u = Inr s" "0 \<le> s"
    "pokers = [] \<or> playable P g (nat s) pokers"
  shows "(hand (after (handleShotPoker P g u pokers)) (nat s) \<noteq> [] \<longrightarrow>
        whoseTurn (after (handleShotPoker P g u pokers)) = (s + 1) mod 3) \<and>
     (hand (after (handleShotPoker P g u pokers)) (nat s) = [] \<longrightarrow>
        whoseTurn (after (handleShotPoker P g u pokers)) = s \<and>
        scheduled (after (handleShotPoker P g u pokers)) = scheduled g)"
proof (cases "pokers = []")
  case True
  then show ?thesis
    by (simp add: handleShotPoker_pass_any[OF assms(1,2)] hand_def)
next
  case False
  from False assms(3) have p: "playable P g (nat s) pokers" by simp
  show ?thesis
    by (simp add: handleShotPoker_play[OF assms(1,2) False p] Let_def hand_def)
qed

lemma handleShotPoker_thrown:
  assumes "uidToSeat (players g) u = Inr s" "0 \<le> s"
    "pokers \<noteq> []" "\<not> playable P g (nat s) pokers"
  shows "\<not> returned (handleShotPoker P g u pokers) \<and>
     whoseTurn (after (handleShotPoker P g u pokers)) = s \<and>
     tablePoker (after (handleShotPoker P g u pokers)) = tablePoker g \<and>
     lastShotPlayer (after (handleShotPoker P g u pokers)) = lastShotPlayer g \<and>
     scheduled (after (handleShotPoker P g u pokers)) = scheduled g"
  by (simp add: handleShotPoker_throw[OF assms])

lemma handleShotPoker_frame:
  assumes "uidToSeat (players g) u = Inr s" "0 \<le> s"
  shows "sent (after (handleShotPoker P g u pokers)) = sent g \<and>
     obs (after (handleShotPoker P g u pokers)) = obs g \<and>
     prompted (after (handleShotPoker P g u pokers)) = prompted g \<and>
     gameOverScheduled (after (handleShotPoker P g u pokers)) = gameOverScheduled g \<and>
     (whoseTurn (after (handleShotPoker P g u pokers)) = s \<or>
      whoseTurn (after (handleShotPoker P g u pokers)) = (s + 1) mod 3)"
proof (cases "pokers = []")
  case True
  then show ?thesis
    by (simp add: handleShotPoker_pass_any[OF assms] gameOverScheduled_def)
next
  case False
  show ?thesis
  proof (cases "playable P g (nat s) pokers")
    case True
    show ?thesis
      by (simp add: handleShotPoker_play[OF assms False True] Let_def gameOverScheduled_def)
  next
    case n: False
    show ?thesis
      by (simp add: handleShotPoker_throw[OF assms False n] gameOverScheduled_def)
  qed
qed

lemma playable_whoseTurn: "playable P (g\<lparr>whoseTurn := w\<rparr>) s pokers = playable P g s pokers"
proof -
  have "hasPic (g\<lparr>whoseTurn := w\<rparr>) = hasPic g"
    by (rule hasPic_cong) simp
  then show ?thesis by (simp add: playable_def hand_def)
qed

lemma handleShotPoker_whoseTurn_irrelevant:
  assumes "uidToSeat (players g) u = Inr s" "0 \<le> s"
  shows "handleShotPoker P (g\<lparr>whoseTurn := w\<rparr>) u pokers = handleShotPoker P g u pokers"
proof -
  have s': "uidToSeat (players (g\<lparr>whoseTurn := w\<rparr>)) u = Inr s" using assms by simp
  show ?thesis
  proof (cases "pokers = []")
    case True
    then show ?thesis
      by (simp add: handleShotPoker_pass_any[OF assms] handleShotPoker_pass_any[OF s' assms(2)]
          hand_def)
  next
    case False
    show ?thesis
    proof (cases "playable P g (nat s) pokers")
      case True
      then have t': "playable P (g\<lparr>whoseTurn := w\<rparr>) (nat s) pokers"
        by (simp add: playable_whoseTurn)
      show ?thesis
        by (simp add: handleShotPoker_play[OF assms False True]
            handleShotPoker_play[OF s' assms(2) False t'] Let_def)
    next
      case n: False
      then have n': "\<not> playable P (g\<lparr>whoseTurn := w\<rparr>) (nat s) pokers"
        by (simp add: playable_whoseTurn)
      show ?thesis
        by (simp add: handleShotPoker_throw[OF assms False n]
            handleShotPoker_throw[OF s' assms(2) False n'] hand_def)
    qed
  qed
qed

lemma g_trick_seat: "uidToSeat (players g_trick) 3 = Inr 2"
  by (simp add: g_trick_def uidToSeat_3)

lemma g_endgame_seat: "uidToSeat (players g_endgame) 1 = Inr 0"
  by (simp add: g_endgame_def uidToSeat_3)

lemma g_dealt_seat: "uidToSeat (players g_dealt) 2 = Inr 1"
  by (simp add: g_dealt_eq uidToSeat_3)

lemma uidToSeat_uids:
  assumes "length ps = 3" "length ps' = 3" "map uid ps' = map uid ps"
  shows "uidToSeat ps' u = uidToSeat ps u"
proof -
  have "uid (ps' ! j) = uid (ps ! j)" if "j < 3" for j
    using that assms nth_map[of j ps' uid] nth_map[of j ps uid] by simp
  then have "uid (ps' ! 0) = uid (ps ! 0)" "uid (ps' ! 1) = uid (ps ! 1)"
    "uid (ps' ! 2) = uid (ps ! 2)"
    by simp_all
  then show ?thesis
    by (simp add: uidToSeat_3[OF assms(1)] uidToSeat_3[OF assms(2)])
qed

lemma map_uid_mapHand: "map uid (mapHand i f ps) = map uid ps"
  by (cases "i < length ps")
     (simp_all add: mapHand_def map_update list_update_same_conv list_update_beyond)

lemma revealHands_Done:
  assumes "length (players g) = 3"
  shows "\<exists>ps. revealHands P revealed g = Done (g\<lparr>players := ps\<rparr>) \<and>
     length ps = 3 \<and> map uid ps = map uid (players g)"
  using assms
proof (induction revealed arbitrary: g)
  case Nil
  have "revealHands P [] g = Done (g\<lparr>players := players g\<rparr>)" by simp
  then show ?case using Nil by blast
next
  case (Cons r revealed)
  obtain u pokers where r: "r = (u, pokers)" by (cases r)
  obtain seat where seat: "uidToSeat (players g) u = Inr seat"
    using uidToSeat_3[OF Cons.prems] by blast
  let ?g = "if 0 < seat
             then g\<lparr>players :=
                    mapHand (nat seat)
                      (\<lambda>h. reDealPoker P (nat seat) (replacePoker P (nat seat) pokers h))
                      (players g)\<rparr>
             else g"
  have l: "length (players ?g) = 3" using Cons.prems by simp
  have m: "map uid (players ?g) = map uid (players g)" by (simp add: map_uid_mapHand)
  obtain ps where ps: "revealHands P revealed ?g = Done (?g\<lparr>players := ps\<rparr>)"
      "length ps = 3" "map uid ps = map uid (players ?g)"
    using Cons.IH[OF l] by blast
  have "?g\<lparr>players := ps\<rparr> = g\<lparr>players := ps\<rparr>" by simp
  then have "revealHands P (r # revealed) g = Done (g\<lparr>players := ps\<rparr>)"
    using r seat ps(1) by simp
  then show ?case using ps(2,3) m by auto
qed

lemma game_over_message:
  assumes "length (players g) = 3"
  shows "returned (onmessage P g (RSP_GAME_OVER winner revealed)) \<and>
     uidToSeat (players g) winner =
       Inr (whoseTurn (after (onmessage P g (RSP_GAME_OVER winner revealed)))) \<and>
     scheduled (after (onmessage P g (RSP_GAME_OVER winner revealed))) =
       scheduled g @ [(2000, GameOver)]"
proof -
  obtain ps where ps: "revealHands P revealed g = Done (g\<lparr>players := ps\<rparr>)"
      "length ps = 3" "map uid ps = map uid (players g)"
    using revealHands_Done[OF assms] by blast
  obtain seat where seat: "uidToSeat (players g) winner = Inr seat"
    using uidToSeat_3[OF assms] by blast
  have "uidToSeat ps winner = Inr seat"
    using uidToSeat_uids[OF assms ps(2,3)] seat by simp
  then show ?thesis using ps(1) seat by simp
qed

text \<open>
  C2, as the code has it. A pass of a seat \<open>s\<close> of the table, and a play whose cards
  are found in the hand of \<open>s\<close> on a table whose cards have their sprites, is applied
  and the handler returns: the cards of a play leave the hand, the play lies on the
  table as the play of \<open>s\<close>, and the other hands are as before; a pass leaves all that
  as it is. If the hand of \<open>s\<close> is not empty afterwards, \<open>whoseTurn\<close> is \<open>(s + 1) mod 3\<close>.
  If the hand is empty afterwards, \<open>whoseTurn\<close> stays at \<open>s\<close> and nothing is scheduled.
  Any other play makes the handler throw: \<open>whoseTurn\<close> is then \<open>s\<close>, whatever the hand
  holds, and the table and its owner are as before. In no case does the handler record
  the end of the round: the game-over callback is waiting exactly if it was waiting
  before. It is the game-over message of the server that ends the round: on a scene with
  its three players its handler returns, sets \<open>whoseTurn\<close> to the seat of the winner
  the message names, and schedules the game-over callback.
\<close>

theorem handleShotPoker_turn:
  assumes "uidToSeat (players g) u = Inr s" and "0 \<le> s"
  shows "(pokers = [] \<or> playable P g (nat s) pokers \<longrightarrow>
        returned (handleShotPoker P g u pokers) \<and>
        tablePoker (after (handleShotPoker P g u pokers)) =
          (if pokers = [] then tablePoker g else sortPlay P pokers) \<and>
        lastShotPlayer (after (handleShotPoker P g u pokers)) =
          (if pokers = [] then lastShotPlayer g else Some (nat s)) \<and>
        hand (after (handleShotPoker P g u pokers)) (nat s) =
          (if pokers = [] then hand g (nat s)
           else arrangePoker P (nat s)
                  (fold (removeAPoker P (nat s)) (sortPlay P pokers) (hand g (nat s)))) \<and>
        (\<forall>j. j \<noteq> nat s \<longrightarrow> hand (after (handleShotPoker P g u pokers)) j = hand g j) \<and>
        (hand (after (handleShotPoker P g u pokers)) (nat s) \<noteq> [] \<longrightarrow>
           whoseTurn (after (handleShotPoker P g u pokers)) = (s + 1) mod 3) \<and>
        (hand (after (handleShotPoker P g u pokers)) (nat s) = [] \<longrightarrow>
           whoseTurn (after (handleShotPoker P g u pokers)) = s \<and>
           scheduled (after (handleShotPoker P g u pokers)) = scheduled g)) \<and>
     (pokers \<noteq> [] \<and> \<not> playable P g (nat s) pokers \<longrightarrow>
        \<not> returned (handleShotPoker P g u pokers) \<and>
        whoseTurn (after (handleShotPoker P g u pokers)) = s \<and>
        tablePoker (after (handleShotPoker P g u pokers)) = tablePoker g \<and>
        lastShotPlayer (after (handleShotPoker P g u pokers)) = lastShotPlayer g \<and>
        scheduled (after (handleShotPoker P g u pokers)) = scheduled g) \<and>
     gameOverScheduled (after (handleShotPoker P g u pokers)) = gameOverScheduled g \<and>
     (length (players g) = 3 \<longrightarrow>
        returned (onmessage P g (RSP_GAME_OVER winner revealed)) \<and>
        uidToSeat (players g) winner =
          Inr (whoseTurn (after (onmessage P g (RSP_GAME_OVER winner revealed)))) \<and>
        scheduled (after (onmessage P g (RSP_GAME_OVER winner revealed))) =
          scheduled g @ [(2000, GameOver)])"
  using handleShotPoker_applied[OF assms, of pokers P]
    handleShotPoker_advance[OF assms, of pokers P]
    handleShotPoker_thrown[OF assms, of pokers P]
    handleShotPoker_frame[OF assms, of P pokers]
    game_over_message[of g P winner revealed]
  by blast

text \<open>
  The theorem on four events. In \<open>g_trick\<close> seat 2 passes and keeps its six cards, so
  the turn goes to seat 0. In \<open>g_endgame\<close> seat 0 plays its last card, which it holds:
  the card lies on the table as the play of seat 0, the turn stays at seat 0 and nothing
  is scheduled. In \<open>g_turned\<close> the table card 30 has no sprite, so the play of the card
  40 by seat 2 throws and the turn stays at seat 2. The game-over message for the winner
  1 on \<open>g_endgame\<close> sets the turn to seat 0 and schedules the callback.
\<close>

theorem handleShotPoker_turn_witness:
  "uidToSeat (players g_trick) 3 = Inr 2 \<and>
   hand (after (handleShotPoker spec_ops g_trick 3 [])) 2 = replicate 6 (VNum 55) \<and>
   whoseTurn (after (handleShotPoker spec_ops g_trick 3 [])) = 0 \<and>
   uidToSeat (players g_endgame) 1 = Inr 0 \<and>
   playable spec_ops g_endgame 0 [VNum 3] \<and>
   hand (after (handleShotPoker spec_ops g_endgame 1 [VNum 3])) 0 = [] \<and>
   tablePoker (after (handleShotPoker spec_ops g_endgame 1 [VNum 3])) = [VNum 3] \<and>
   lastShotPlayer (after (handleShotPoker spec_ops g_endgame 1 [VNum 3])) = Some 0 \<and>
   whoseTurn (after (handleShotPoker spec_ops g_endgame 1 [VNum 3])) = 0 \<and>
   scheduled (after (handleShotPoker spec_ops g_endgame 1 [VNum 3])) = [] \<and>
   uidToSeat (players g_turned) 3 = Inr 2 \<and>
   \<not> playable spec_ops g_turned 2 [VNum 40] \<and>
   \<not> returned (handleShotPoker spec_ops g_turned 3 [VNum 40]) \<and>
   whoseTurn (after (handleShotPoker spec_ops g_turned 3 [VNum 40])) = 2 \<and>
   tablePoker (after (handleShotPoker spec_ops g_turned 3 [VNum 40])) = [VNum 30] \<and>
   length (players g_endgame) = 3 \<and>
   returned (onmessage spec_ops g_endgame (RSP_GAME_OVER 1 [])) \<and>
   whoseTurn (after (onmessage spec_ops g_endgame (RSP_GAME_OVER 1 []))) = 0 \<and>
   scheduled (after (onmessage spec_ops g_endgame (RSP_GAME_OVER 1 []))) = [(2000, GameOver)]"
proof -
  have turned: "uidToSeat (players g_turned) 3 = Inr 2"
    by code_simp
  have pe: "playable spec_ops g_endgame (nat 0) [VNum 3]"
    by code_simp
  have pe': "playable spec_ops g_endgame 0 [VNum 3]"
    by code_simp
  have pt: "\<not> playable spec_ops g_turned (nat 2) [VNum 40]"
    by code_simp
  have pt': "\<not> playable spec_ops g_turned 2 [VNum 40]"
    by code_simp
  have l: "length (players g_endgame) = 3"
    by (simp add: g_endgame_def)
  have n: "nat 2 = 2" "nat 0 = 0" by simp_all
  note t1 = handleShotPoker_turn[OF g_trick_seat, of "[]" spec_ops 1 "[]"]
  note t2 = handleShotPoker_turn[OF g_endgame_seat, of "[VNum 3]" spec_ops 1 "[]"]
  note t3 = handleShotPoker_turn[OF turned, of "[VNum 40]" spec_ops 1 "[]"]
  have h1: "hand g_trick 2 = replicate 6 (VNum 55)"
    by (simp add: g_trick_def hand_def)
  have a1: "hand (after (handleShotPoker spec_ops g_trick 3 [])) 2 = replicate 6 (VNum 55)"
    using t1 h1 by (simp add: n)
  have a2: "whoseTurn (after (handleShotPoker spec_ops g_trick 3 [])) = 0"
    using t1 a1 by (simp add: n)
  have h2: "arrangePoker spec_ops 0 (removeAPoker spec_ops 0 (VNum 3) (hand g_endgame 0)) = [] \<and>
      sortPlay spec_ops [VNum 3] = [VNum 3] \<and> scheduled g_endgame = []"
    by (simp add: g_endgame_def hand_def spec_ops_def)
  have b0: "returned (handleShotPoker spec_ops g_endgame 1 [VNum 3]) \<and>
      tablePoker (after (handleShotPoker spec_ops g_endgame 1 [VNum 3])) = sortPlay spec_ops [VNum 3] \<and>
      lastShotPlayer (after (handleShotPoker spec_ops g_endgame 1 [VNum 3])) = Some (nat 0) \<and>
      hand (after (handleShotPoker spec_ops g_endgame 1 [VNum 3])) (nat 0) =
        arrangePoker spec_ops (nat 0) (fold (removeAPoker spec_ops (nat 0))
          (sortPlay spec_ops [VNum 3]) (hand g_endgame (nat 0))) \<and>
      (hand (after (handleShotPoker spec_ops g_endgame 1 [VNum 3])) (nat 0) = [] \<longrightarrow>
         whoseTurn (after (handleShotPoker spec_ops g_endgame 1 [VNum 3])) = 0 \<and>
         scheduled (after (handleShotPoker spec_ops g_endgame 1 [VNum 3])) = scheduled g_endgame)"
    using t2 pe by simp
  have b1: "hand (after (handleShotPoker spec_ops g_endgame 1 [VNum 3])) 0 = []"
    using b0 h2 by (simp add: n)
  have b2: "tablePoker (after (handleShotPoker spec_ops g_endgame 1 [VNum 3])) = [VNum 3] \<and>
      lastShotPlayer (after (handleShotPoker spec_ops g_endgame 1 [VNum 3])) = Some 0 \<and>
      whoseTurn (after (handleShotPoker spec_ops g_endgame 1 [VNum 3])) = 0 \<and>
      scheduled (after (handleShotPoker spec_ops g_endgame 1 [VNum 3])) = []"
    using b0 b1 h2 by (simp add: n)
  have h3: "tablePoker g_turned = [VNum 30]"
    by code_simp
  have c1: "\<not> returned (handleShotPoker spec_ops g_turned 3 [VNum 40]) \<and>
      whoseTurn (after (handleShotPoker spec_ops g_turned 3 [VNum 40])) = 2 \<and>
      tablePoker (after (handleShotPoker spec_ops g_turned 3 [VNum 40])) = [VNum 30]"
    using t3 pt h3 by simp
  have s1: "uidToSeat (players g_endgame) 1 = Inr 0"
    by (rule g_endgame_seat)
  have d1: "returned (onmessage spec_ops g_endgame (RSP_GAME_OVER 1 [])) \<and>
      Inr 0 = Inr (whoseTurn (after (onmessage spec_ops g_endgame (RSP_GAME_OVER 1 [])))) \<and>
      scheduled (after (onmessage spec_ops g_endgame (RSP_GAME_OVER 1 []))) =
        scheduled g_endgame @ [(2000, GameOver)]"
    using t2 l s1 by (simp del: onmessage.simps)
  have d2: "whoseTurn (after (onmessage spec_ops g_endgame (RSP_GAME_OVER 1 []))) = 0 \<and>
      scheduled (after (onmessage spec_ops g_endgame (RSP_GAME_OVER 1 []))) = [(2000, GameOver)]"
    using d1 h2 by simp
  show ?thesis
    using g_trick_seat g_endgame_seat turned pe' pt' l a1 a2 b1 b2 c1 d1 d2 by blast
qed

text \<open>
  C2 as stated fails where it has the play itself end the round. In \<open>g_endgame\<close> the
  local player plays its last card: the handler returns, the hand is empty, \<open>whoseTurn\<close>
  is still seat 0, and nothing is scheduled, so no game-over callback is waiting. It is
  the game-over message, which carries the winner itself, that schedules the callback.
\<close>

theorem last_card_counterexample:
  "returned (onmessage spec_ops g_endgame (RSP_SHOT_POKER 1 [VNum 3] (VNum 6))) \<and>
   hand (after (onmessage spec_ops g_endgame (RSP_SHOT_POKER 1 [VNum 3] (VNum 6)))) 0 = [] \<and>
   whoseTurn (after (onmessage spec_ops g_endgame (RSP_SHOT_POKER 1 [VNum 3] (VNum 6)))) = 0 \<and>
   scheduled (after (onmessage spec_ops g_endgame (RSP_SHOT_POKER 1 [VNum 3] (VNum 6)))) = [] \<and>
   \<not> gameOverScheduled
       (after (onmessage spec_ops g_endgame (RSP_SHOT_POKER 1 [VNum 3] (VNum 6)))) \<and>
   gameOverScheduled
     (deliver spec_ops g_endgame
        [RSP_SHOT_POKER 1 [VNum 3] (VNum 6),
         RSP_GAME_OVER 1 [(1, []), (2, [VNum 20, VNum 21]), (3, map VNum [30, 31, 32, 33, 34])]])"
  by code_simp

text \<open>
  C3, as the code has it. The handler does not compare the seat of a play event with
  \<open>whoseTurn\<close>: it takes the seat of the event as the acting seat. For an event of a seat
  \<open>s\<close> of the table its outcome is the same whatever \<open>whoseTurn\<close> was before, \<open>whoseTurn\<close>
  afterwards is \<open>s\<close> or \<open>(s + 1) mod 3\<close>, and no request is sent. A pass, and a play
  whose cards are found in the hand of \<open>s\<close> on a table whose cards have their sprites,
  is applied and the handler returns: the cards of a play leave the hand, and the play
  lies on the table as the play of \<open>s\<close>. Any other play makes the handler throw, with
  \<open>whoseTurn\<close> at \<open>s\<close>.
\<close>

theorem handleShotPoker_adopts_seat:
  assumes "uidToSeat (players g) u = Inr s" and "0 \<le> s"
  shows "handleShotPoker P (g\<lparr>whoseTurn := w\<rparr>) u pokers = handleShotPoker P g u pokers \<and>
     (whoseTurn (after (handleShotPoker P g u pokers)) = s \<or>
      whoseTurn (after (handleShotPoker P g u pokers)) = (s + 1) mod 3) \<and>
     sent (after (handleShotPoker P g u pokers)) = sent g \<and>
     (pokers = [] \<or> playable P g (nat s) pokers \<longrightarrow>
        returned (handleShotPoker P g u pokers) \<and>
        tablePoker (after (handleShotPoker P g u pokers)) =
          (if pokers = [] then tablePoker g else sortPlay P pokers) \<and>
        lastShotPlayer (after (handleShotPoker P g u pokers)) =
          (if pokers = [] then lastShotPlayer g else Some (nat s)) \<and>
        hand (after (handleShotPoker P g u pokers)) (nat s) =
          (if pokers = [] then hand g (nat s)
           else arrangePoker P (nat s)
                  (fold (removeAPoker P (nat s)) (sortPlay P pokers) (hand g (nat s))))) \<and>
     (pokers \<noteq> [] \<and> \<not> playable P g (nat s) pokers \<longrightarrow>
        \<not> returned (handleShotPoker P g u pokers) \<and>
        whoseTurn (after (handleShotPoker P g u pokers)) = s)"
  using handleShotPoker_whoseTurn_irrelevant[OF assms, of P w pokers]
    handleShotPoker_frame[OF assms, of P pokers]
    handleShotPoker_applied[OF assms, of pokers P]
    handleShotPoker_thrown[OF assms, of pokers P]
  by blast

text \<open>
  The theorem on the dealt scene, where it is the turn of seat 0, and a play of the card
  20 by seat 1, a peer that holds seventeen card backs: the outcome is that of the same
  play when it is the turn of seat 1, the card lies on the table as the play of seat 1,
  and nothing is sent. On \<open>g_turned\<close>, where the table card has no sprite, the play of
  seat 2 throws.
\<close>

theorem handleShotPoker_adopts_seat_witness:
  "uidToSeat (players g_dealt) 2 = Inr 1 \<and> whoseTurn g_dealt = 0 \<and>
   playable spec_ops g_dealt 1 [VNum 20] \<and>
   returned (handleShotPoker spec_ops g_dealt 2 [VNum 20]) \<and>
   handleShotPoker spec_ops (g_dealt\<lparr>whoseTurn := 1\<rparr>) 2 [VNum 20] =
     handleShotPoker spec_ops g_dealt 2 [VNum 20] \<and>
   tablePoker (after (handleShotPoker spec_ops g_dealt 2 [VNum 20])) = [VNum 20] \<and>
   lastShotPlayer (after (handleShotPoker spec_ops g_dealt 2 [VNum 20])) = Some 1 \<and>
   sent (after (handleShotPoker spec_ops g_dealt 2 [VNum 20])) = [] \<and>
   uidToSeat (players g_turned) 3 = Inr 2 \<and>
   \<not> playable spec_ops g_turned 2 [VNum 40] \<and>
   \<not> returned (handleShotPoker spec_ops g_turned 3 [VNum 40]) \<and>
   whoseTurn (after (handleShotPoker spec_ops g_turned 3 [VNum 40])) = 2"
proof -
  have a: "whoseTurn g_dealt = 0 \<and> sent g_dealt = []" by (simp add: g_dealt_eq)
  have turned: "uidToSeat (players g_turned) 3 = Inr 2"
    by code_simp
  have pd: "playable spec_ops g_dealt (nat 1) [VNum 20]"
    by code_simp
  have pd': "playable spec_ops g_dealt 1 [VNum 20]"
    by code_simp
  have pt: "\<not> playable spec_ops g_turned (nat 2) [VNum 40]"
    by code_simp
  have pt': "\<not> playable spec_ops g_turned 2 [VNum 40]"
    by code_simp
  have sp: "sortPlay spec_ops [VNum 20] = [VNum 20]"
    by (simp add: spec_ops_def)
  note t1 = handleShotPoker_adopts_seat[OF g_dealt_seat, of spec_ops 1 "[VNum 20]"]
  note t2 = handleShotPoker_adopts_seat[OF turned, of spec_ops 1 "[VNum 40]"]
  have b: "returned (handleShotPoker spec_ops g_dealt 2 [VNum 20]) \<and>
      handleShotPoker spec_ops (g_dealt\<lparr>whoseTurn := 1\<rparr>) 2 [VNum 20] =
        handleShotPoker spec_ops g_dealt 2 [VNum 20] \<and>
      tablePoker (after (handleShotPoker spec_ops g_dealt 2 [VNum 20])) = [VNum 20] \<and>
      lastShotPlayer (after (handleShotPoker spec_ops g_dealt 2 [VNum 20])) = Some 1 \<and>
      sent (after (handleShotPoker spec_ops g_dealt 2 [VNum 20])) = []"
    using t1 pd a sp by simp
  have c: "\<not> returned (handleShotPoker spec_ops g_turned 3 [VNum 40]) \<and>
      whoseTurn (after (handleShotPoker spec_ops g_turned 3 [VNum 40])) = 2"
    using t2 pt by simp
  show ?thesis
    using g_dealt_seat a pd' turned pt' b c by blast
qed

text \<open>
  C3 as stated fails on the dealt scene. It is the turn of seat 0 and the play event of
  the card 20 comes from seat 1 (uid 2): the handler returns, the card lies on the
  table as the play of seat 1, \<open>whoseTurn\<close> is 2, and nothing has been sent.
\<close>

theorem play_out_of_turn_counterexample:
  "whoseTurn g_dealt = 0 \<and> uidToSeat (players g_dealt) 2 = Inr 1 \<and>
   returned (onmessage spec_ops g_dealt (RSP_SHOT_POKER 2 [VNum 20] (VNum 6))) \<and>
   tablePoker g_dealt = [] \<and>
   tablePoker (after (onmessage spec_ops g_dealt (RSP_SHOT_POKER 2 [VNum 20] (VNum 6)))) =
     [VNum 20] \<and>
   lastShotPlayer (after (onmessage spec_ops g_dealt (RSP_SHOT_POKER 2 [VNum 20] (VNum 6)))) =
     Some 1 \<and>
   whoseTurn (after (onmessage spec_ops g_dealt (RSP_SHOT_POKER 2 [VNum 20] (VNum 6)))) = 2 \<and>
   sent (after (onmessage spec_ops g_dealt (RSP_SHOT_POKER 2 [VNum 20] (VNum 6)))) = []"
  by code_simp



lemma observer_set_after:
  "\<exists>ob n. after (observer_set g key v) = g\<lparr>obs := ob, notified := n\<rparr>"
proof -
  obtain ob calls r where o: "Observer_set subscriber (obs g) key v = (ob, calls, r)"
    by (cases "Observer_set subscriber (obs g) key v")
  have "after (observer_set g key v) = g\<lparr>obs := ob, notified := notified g @ calls\<rparr>"
    using o by (cases r) (simp_all add: observer_set_def)
  then show ?thesis by blast
qed

lemma observer_set_quiet:
  assumes "key \<noteq> K_countdown" "\<not> dotted key" "\<forall>f. subscriber f v = None"
  shows "\<exists>ob n. observer_set g key v = Done (g\<lparr>obs := ob, notified := n\<rparr>)"
proof -
  have "thrown subscriber (registered (obs g) key) v = None"
    using called_quiet[of subscriber v "registered (obs g) key"] assms(3) by simp
  then have "observer_set g key v =
      Done (g\<lparr>obs := obs g\<lparr>state := AList.update (wholeName key) v (state (obs g))\<rparr>,
              notified := notified g @
                map (\<lambda>h. (h, v)) (called subscriber (registered (obs g) key) v)\<rparr>)"
    using set_plain[OF assms(1,2), of subscriber "obs g" v]
    by (simp add: observer_set_def)
  then show ?thesis by blast
qed

lemma observer_set_rob:
  "\<exists>ob n. observer_set g K_rob (VBool b) = Done (g\<lparr>obs := ob, notified := n\<rparr>)"
  using scene_keys by (intro observer_set_quiet) (simp_all add: subscriber_def)

lemma startCallScore_Done:
  "\<exists>ob n. startCallScore g = Done (g\<lparr>obs := ob, notified := n\<rparr>)"
proof (cases "whoseTurn g = 0")
  case True
  then show ?thesis
    using observer_set_rob[of g True] by (simp add: startCallScore_def)
next
  case False
  then have "startCallScore g = Done (g\<lparr>obs := obs g, notified := notified g\<rparr>)"
    by (simp add: startCallScore_def)
  then show ?thesis by blast
qed

lemma openBid_step:
  assumes "uidToSeat (players g) u = Inr s" "0 \<le> s"
  shows "\<exists>ob n. after (onmessage P g (RSP_CALL_SCORE u rob (- 1) pokers m)) =
     g\<lparr>whoseTurn := (s + 1) mod 3, obs := ob, notified := n\<rparr>"
proof -
  let ?g1 = "g\<lparr>whoseTurn := s\<rparr>"
  have p: "playerAt (players g) s = Some (players g ! nat s)"
    using playerAt_seat[OF assms] by simp
  obtain ob2 n2 where o2: "observer_set ?g1 K_rob (VBool False) =
      Done (?g1\<lparr>obs := ob2, notified := n2\<rparr>)"
    using observer_set_rob[of ?g1 False] by auto
  let ?g2 = "?g1\<lparr>obs := ob2, notified := n2\<rparr>"
  let ?g3 = "?g2\<lparr>whoseTurn := (whoseTurn ?g2 + 1) mod 3\<rparr>"
  obtain ob4 n4 where o4: "startCallScore ?g3 = Done (?g3\<lparr>obs := ob4, notified := n4\<rparr>)"
    using startCallScore_Done[of ?g3] by auto
  let ?g4 = "?g3\<lparr>obs := ob4, notified := n4\<rparr>"
  obtain ob5 n5 where o5: "after (observer_set ?g4 K_room_multiple m) =
      ?g4\<lparr>obs := ob5, notified := n5\<rparr>"
    using observer_set_after[of ?g4 K_room_multiple m] by auto
  have "after (onmessage P g (RSP_CALL_SCORE u rob (- 1) pokers m)) =
      after (observer_set ?g4 K_room_multiple m)"
    using assms(1) p o2 o4 by (simp add: Let_def)
  also have "\<dots> = g\<lparr>whoseTurn := (s + 1) mod 3, obs := ob5, notified := n5\<rparr>"
    using o5 by simp
  finally show ?thesis by blast
qed

lemma openBid_step_frame:
  assumes "uidToSeat (players g) u = Inr s" "0 \<le> s"
  shows "whoseTurn (after (onmessage P g (openBid (u, rob, pokers, m)))) = (s + 1) mod 3 \<and>
     players (after (onmessage P g (openBid (u, rob, pokers, m)))) = players g \<and>
     tablePoker (after (onmessage P g (openBid (u, rob, pokers, m)))) = tablePoker g \<and>
     lastShotPlayer (after (onmessage P g (openBid (u, rob, pokers, m)))) = lastShotPlayer g \<and>
     scheduled (after (onmessage P g (openBid (u, rob, pokers, m)))) = scheduled g \<and>
     sent (after (onmessage P g (openBid (u, rob, pokers, m)))) = sent g \<and>
     prompted (after (onmessage P g (openBid (u, rob, pokers, m)))) = prompted g"
proof -
  obtain ob n where "after (onmessage P g (RSP_CALL_SCORE u rob (- 1) pokers m)) =
     g\<lparr>whoseTurn := (s + 1) mod 3, obs := ob, notified := n\<rparr>"
    using openBid_step[OF assms] by blast
  then show ?thesis by simp
qed

lemma openBids_frame:
  assumes "\<forall>b \<in> set bs. \<exists>s. uidToSeat (players g) (fst b) = Inr s \<and> 0 \<le> s"
  shows "players (deliver P g (map openBid bs)) = players g \<and>
     tablePoker (deliver P g (map openBid bs)) = tablePoker g \<and>
     lastShotPlayer (deliver P g (map openBid bs)) = lastShotPlayer g \<and>
     scheduled (deliver P g (map openBid bs)) = scheduled g \<and>
     sent (deliver P g (map openBid bs)) = sent g \<and>
     prompted (deliver P g (map openBid bs)) = prompted g"
  using assms
proof (induction bs arbitrary: g)
  case Nil
  then show ?case by simp
next
  case (Cons b bs)
  obtain u rob pokers m where b: "b = (u, rob, pokers, m)" by (cases b)
  obtain s where s: "uidToSeat (players g) u = Inr s" "0 \<le> s"
    using Cons.prems b by auto
  let ?g = "after (onmessage P g (openBid (u, rob, pokers, m)))"
  note f = openBid_step_frame[OF s, of P rob pokers m]
  have "\<forall>b \<in> set bs. \<exists>s. uidToSeat (players ?g) (fst b) = Inr s \<and> 0 \<le> s"
    using Cons.prems f by simp
  from Cons.IH[OF this] f b show ?case by simp
qed

lemma deliver_append: "deliver P g (ms @ ms') = deliver P (deliver P g ms) ms'"
  by (induction ms arbitrary: g) auto

text \<open>
  C8. A call-score packet without a landlord from a seat \<open>s\<close> of the table sets
  \<open>whoseTurn\<close> to \<open>(s + 1) mod 3\<close> and leaves the bidding as it is: the players with their
  hands and landlord flags, the table cards and \<open>lastShotPlayer\<close> are unchanged, and
  nothing is scheduled, sent or asked of the local player. This holds after any number
  of such packets, one after the other: the scene counts no rounds.
\<close>

theorem bidding_without_landlord:
  assumes "\<forall>b \<in> set bs. \<exists>s. uidToSeat (players g) (fst b) = Inr s \<and> 0 \<le> s"
    and "uidToSeat (players g) u = Inr s" and "0 \<le> s"
  shows "whoseTurn (deliver P g (map openBid (bs @ [(u, rob, pokers, m)]))) = (s + 1) mod 3 \<and>
     players (deliver P g (map openBid (bs @ [(u, rob, pokers, m)]))) = players g \<and>
     tablePoker (deliver P g (map openBid (bs @ [(u, rob, pokers, m)]))) = tablePoker g \<and>
     lastShotPlayer (deliver P g (map openBid (bs @ [(u, rob, pokers, m)]))) = lastShotPlayer g \<and>
     scheduled (deliver P g (map openBid (bs @ [(u, rob, pokers, m)]))) = scheduled g \<and>
     sent (deliver P g (map openBid (bs @ [(u, rob, pokers, m)]))) = sent g \<and>
     prompted (deliver P g (map openBid (bs @ [(u, rob, pokers, m)]))) = prompted g"
proof -
  let ?g = "deliver P g (map openBid bs)"
  note f = openBids_frame[OF assms(1), of P]
  have s: "uidToSeat (players ?g) u = Inr s" using f assms(2) by simp
  have d: "deliver P g (map openBid (bs @ [(u, rob, pokers, m)])) =
      after (onmessage P ?g (openBid (u, rob, pokers, m)))"
    by (simp add: deliver_append)
  show ?thesis
    unfolding d using openBid_step_frame[OF s assms(3), of P rob pokers m] f by simp
qed


text \<open>
  The theorem on the dealt scene: after the four bids of \<open>bids_4\<close> and a fifth bid of
  seat 1 it is the turn of seat 2, and the hands are those of the deal.
\<close>

theorem bidding_without_landlord_witness:
  "map (\<lambda>b. uidToSeat (players g_dealt) (fst b)) bids_4 = [Inr 0, Inr 1, Inr 2, Inr 0] \<and>
   uidToSeat (players g_dealt) 2 = Inr 1 \<and>
   whoseTurn (deliver spec_ops g_dealt (map openBid (bids_4 @ [(2, 0, None, VNum 12)]))) = 2 \<and>
   players (deliver spec_ops g_dealt (map openBid (bids_4 @ [(2, 0, None, VNum 12)]))) =
     players g_dealt \<and>
   tablePoker (deliver spec_ops g_dealt (map openBid (bids_4 @ [(2, 0, None, VNum 12)]))) = [] \<and>
   scheduled (deliver spec_ops g_dealt (map openBid (bids_4 @ [(2, 0, None, VNum 12)]))) = []"
proof -
  have m: "map (\<lambda>b. uidToSeat (players g_dealt) (fst b)) bids_4 = [Inr 0, Inr 1, Inr 2, Inr 0]"
    by (simp add: bids_4_def g_dealt_eq uidToSeat_3)
  have h: "\<forall>b \<in> set bids_4. \<exists>s. uidToSeat (players g_dealt) (fst b) = Inr s \<and> 0 \<le> s"
    by (simp add: bids_4_def g_dealt_eq uidToSeat_3)
  have a: "tablePoker g_dealt = [] \<and> scheduled g_dealt = []" by (simp add: g_dealt_eq)
  show ?thesis
    using bidding_without_landlord[OF h g_dealt_seat, of spec_ops 0 None "VNum 12"]
      m g_dealt_seat a
    by simp
qed

text \<open>
  C9, as the code has it. \<open>restart()\<close> puts three newly created players on the seats,
  empties the table cards, forgets \<open>lastShotPlayer\<close> and sets \<open>whoseTurn\<close> to 0; so,
  with a \<open>createPlay\<close> that makes players with an empty hand and no landlord flag, all
  hands are empty and no seat is the landlord. It does not touch the observer: the
  multiplier of the room is what it was. A second restart changes nothing.
\<close>

theorem restart_resets:
  "restart P (restart P g) = restart P g \<and>
   tablePoker (restart P g) = [] \<and> lastShotPlayer (restart P g) = None \<and>
   whoseTurn (restart P g) = 0 \<and>
   obs (restart P g) = obs g \<and> multiple (restart P g) = multiple g \<and>
   length (players (restart P g)) = 3 \<and>
   ((\<forall>seat. pokerInHand (createPlay P seat) = [] \<and> \<not> isLandlord (createPlay P seat)) \<longrightarrow>
      (\<forall>j<3. hand (restart P g) j = [] \<and> \<not> isLandlord (players (restart P g) ! j)))"
  by (simp add: restart_def multiple_def hand_def less_Suc_eq eval_nat_numeral)

text \<open>
  The theorem on the scene \<open>g_endgame\<close>: after the restart the three hands are empty,
  nobody is the landlord, and the multiplier is still 6.
\<close>

theorem restart_resets_witness:
  "(\<forall>seat. pokerInHand (createPlay spec_ops seat) = []) \<and>
   (\<forall>seat. \<not> isLandlord (createPlay spec_ops seat)) \<and>
   restart spec_ops (restart spec_ops g_endgame) = restart spec_ops g_endgame \<and>
   hand (restart spec_ops g_endgame) 0 = [] \<and> hand (restart spec_ops g_endgame) 1 = [] \<and>
   hand (restart spec_ops g_endgame) 2 = [] \<and>
   \<not> isLandlord (players (restart spec_ops g_endgame) ! 0) \<and>
   multiple g_endgame = VNum 6 \<and> multiple (restart spec_ops g_endgame) = VNum 6"
proof -
  have c: "\<forall>seat. pokerInHand (createPlay spec_ops seat) = [] \<and>
      \<not> isLandlord (createPlay spec_ops seat)"
    by (simp add: spec_ops_def)
  have m: "multiple g_endgame = VNum 6"
    by code_simp
  note th = restart_resets[of spec_ops g_endgame]
  from th c have e: "\<forall>j<3. hand (restart spec_ops g_endgame) j = [] \<and>
      \<not> isLandlord (players (restart spec_ops g_endgame) ! j)"
    by blast
  have e0: "hand (restart spec_ops g_endgame) 0 = [] \<and>
      \<not> isLandlord (players (restart spec_ops g_endgame) ! 0)"
    using e by simp
  have e1: "hand (restart spec_ops g_endgame) 1 = []" using e by simp
  have e2: "hand (restart spec_ops g_endgame) 2 = []" using e by simp
  from th have i: "restart spec_ops (restart spec_ops g_endgame) = restart spec_ops g_endgame \<and>
      multiple (restart spec_ops g_endgame) = multiple g_endgame"
    by blast
  show ?thesis
    using c m e0 e1 e2 i by simp
qed

text \<open>
  C9 as stated fails on \<open>g_endgame\<close>, where the seats hold the players 1, 2 and 3 and the
  multiplier of the room is 6. After the restart the multiplier is still 6, not 1, and
  the players are those a restart makes from a scene that never had any, so the three
  identities are gone: with the new players of \<open>spec_ops\<close> every uid is \<open>-1\<close>.
\<close>

theorem restart_counterexample:
  "map uid (players g_endgame) = [1, 2, 3] \<and> multiple g_endgame = VNum 6 \<and>
   multiple (restart spec_ops g_endgame) = VNum 6 \<and>
   players (restart spec_ops g_endgame) =
     players (restart spec_ops (new_Game new_Observer)) \<and>
   map uid (players (restart spec_ops g_endgame)) = [- 1, - 1, - 1]"
  by code_simp

text \<open>
  C4 does not hold of the code in a second round on the same scene. In the first round
  (\<open>g_dealt\<close>) the closing bid puts the three bottom cards on the empty table and
  schedules \<open>dealLastThreePoker\<close>, which moves them to the hand of the landlord. The
  call-score case writes the bottom cards into \<open>tablePoker\<close> by index, and nothing
  empties \<open>tablePoker\<close> at the end of a round. After a round that ended with a play of
  four cards (\<open>g_second_deal\<close>) the table still holds them: the closing bid sets
  \<open>whoseTurn\<close> to the seat of the landlord and overwrites three of the four entries,
  \<open>showLastThreePoker\<close> finds four cards and gives up, nothing is scheduled, and
  \<open>dealLastThreePoker\<close>, were it run, gives up as well: the hand of the landlord stays
  at its seventeen cards and the bottom cards stay on the table.
\<close>

theorem bottom_cards_lost_in_second_round:
  "tablePoker g_dealt = [] \<and>
   scheduled (after (onmessage spec_ops g_dealt bid_landlord_3)) = [(1500, DealLastThreePoker)] \<and>
   hand (after (runTimer spec_ops DealLastThreePoker
           (after (onmessage spec_ops g_dealt bid_landlord_3)))) 2 =
     replicate 17 (VNum 55) @ [VNum 52, VNum 53, VNum 54] \<and>
   tablePoker (after (runTimer spec_ops DealLastThreePoker
           (after (onmessage spec_ops g_dealt bid_landlord_3)))) = [] \<and>
   tablePoker g_second_deal = map VNum [5, 18, 31, 44] \<and>
   hand g_second_deal 0 = rev pokers_17 \<and>
   hand g_second_deal 2 = replicate 17 (VNum 55) \<and>
   scheduled g_second_deal = [(2000, GameOver)] \<and>
   returned (onmessage spec_ops g_second_deal bid_landlord_3) \<and>
   whoseTurn (after (onmessage spec_ops g_second_deal bid_landlord_3)) = 2 \<and>
   isLandlord (players (after (onmessage spec_ops g_second_deal bid_landlord_3)) ! 2) \<and>
   tablePoker (after (onmessage spec_ops g_second_deal bid_landlord_3)) =
     map VNum [52, 53, 54, 44] \<and>
   scheduled (after (onmessage spec_ops g_second_deal bid_landlord_3)) = [(2000, GameOver)] \<and>
   returned (runTimer spec_ops DealLastThreePoker
     (after (onmessage spec_ops g_second_deal bid_landlord_3))) \<and>
   hand (after (runTimer spec_ops DealLastThreePoker
           (after (onmessage spec_ops g_second_deal bid_landlord_3)))) 2 =
     replicate 17 (VNum 55) \<and>
   tablePoker (after (runTimer spec_ops DealLastThreePoker
           (after (onmessage spec_ops g_second_deal bid_landlord_3)))) =
     map VNum [52, 53, 54, 44]"
  by code_simp

lemma joinLoop_found:
  assumes "length (players g) = 3" "length syncInfo = 3"
    "i \<le> k" "k < i + n" "k < 3"
    "info_uid (syncInfo ! k) = uid (players g ! 0)"
    "\<forall>j. i \<le> j \<and> j < k \<longrightarrow> info_uid (syncInfo ! j) \<noteq> uid (players g ! 0)"
  shows "joinLoop n i syncInfo g =
     Done (g\<lparr>players := (players g)
       [1 := updateInfo (players g ! 1) (info_uid (syncInfo ! ((k + 1) mod 3)))
               (info_name (syncInfo ! ((k + 1) mod 3))),
        2 := updateInfo (players g ! 2) (info_uid (syncInfo ! ((k + 2) mod 3)))
               (info_name (syncInfo ! ((k + 2) mod 3)))]\<rparr>)"
  using assms(3,4,7)
proof (induction n arbitrary: i)
  case 0
  then show ?case by simp
next
  case (Suc n)
  have ne: "players g \<noteq> []" using assms(1) by auto
  show ?case
  proof (cases "i = k")
    case True
    have m: "(k + 1) mod 3 < 3" "(k + 2) mod 3 < 3" by simp_all
    show ?thesis
      using True assms(1,2,5,6) ne m by (simp add: Let_def not_le)
  next
    case False
    then have lt: "i < k" using Suc.prems(1) by simp
    then have "info_uid (syncInfo ! i) \<noteq> uid (players g ! 0)"
      using Suc.prems(3) by simp
    moreover have "joinLoop n (Suc i) syncInfo g =
     Done (g\<lparr>players := (players g)
       [1 := updateInfo (players g ! 1) (info_uid (syncInfo ! ((k + 1) mod 3)))
               (info_name (syncInfo ! ((k + 1) mod 3))),
        2 := updateInfo (players g ! 2) (info_uid (syncInfo ! ((k + 2) mod 3)))
               (info_name (syncInfo ! ((k + 2) mod 3)))]\<rparr>)"
      using Suc.IH[of "Suc i"] Suc.prems lt by simp
    ultimately show ?thesis using ne by simp
  qed
qed

lemma create_local:
  "uid (players (create P lu ln (new_Game ob)) ! 0) = lu \<and>
   name (players (create P lu ln (new_Game ob)) ! 0) = ln \<and>
   length (players (create P lu ln (new_Game ob))) = 3"
  by (simp add: create_def new_Game_def updateInfo_def Let_def)

lemma observer_set_room:
  assumes "room \<noteq> VUndef" "room \<noteq> VNull"
  shows "\<exists>ob n. observer_set g K_room room = Done (g\<lparr>obs := ob, notified := n\<rparr>)"
  using scene_keys assms by (intro observer_set_quiet) (simp_all add: subscriber_def)

lemma join_with_room:
  assumes "length (players g) = 3" and "length syncInfo = 3" and "k < 3"
    and "info_uid (syncInfo ! k) = uid (players g ! 0)"
    and "\<forall>j<k. info_uid (syncInfo ! j) \<noteq> uid (players g ! 0)"
    and "room \<noteq> VUndef" and "room \<noteq> VNull"
  shows "let g' = after (onmessage P g (RSP_JOIN_ROOM room bottom_cards syncInfo))
         in returned (onmessage P g (RSP_JOIN_ROOM room bottom_cards syncInfo)) \<and>
            uid (players (create P lu ln (new_Game ob)) ! 0) = lu \<and>
            name (players (create P lu ln (new_Game ob)) ! 0) = ln \<and>
            players g' ! 0 = players g ! 0 \<and>
            uid (players g' ! 1) = info_uid (syncInfo ! ((k + 1) mod 3)) \<and>
            name (players g' ! 1) = info_name (syncInfo ! ((k + 1) mod 3)) \<and>
            uid (players g' ! 2) = info_uid (syncInfo ! ((k + 2) mod 3)) \<and>
            name (players g' ! 2) = info_name (syncInfo ! ((k + 2) mod 3))"
proof -
  obtain ob1 n1 where o: "observer_set g K_room room = Done (g\<lparr>obs := ob1, notified := n1\<rparr>)"
    using observer_set_room[OF assms(6,7), of g] by auto
  let ?g1 = "g\<lparr>obs := ob1, notified := n1\<rparr>"
  let ?ps = "(players g)
       [1 := updateInfo (players g ! 1) (info_uid (syncInfo ! ((k + 1) mod 3)))
               (info_name (syncInfo ! ((k + 1) mod 3))),
        2 := updateInfo (players g ! 2) (info_uid (syncInfo ! ((k + 2) mod 3)))
               (info_name (syncInfo ! ((k + 2) mod 3)))]"
  have j: "joinLoop (length syncInfo) 0 syncInfo ?g1 = Done (?g1\<lparr>players := ?ps\<rparr>)"
    using joinLoop_found[of ?g1 syncInfo 0 k 3] assms(1-5) by simp
  let ?g2 = "?g1\<lparr>players := ?ps\<rparr>"
  have "\<exists>g3. onmessage P g (RSP_JOIN_ROOM room bottom_cards syncInfo) = Done g3 \<and>
      players g3 = ?ps"
    using o j
    by (auto simp: Let_def showLastThreePoker_def split: val.splits option.splits)
  then obtain g3 where g3: "onmessage P g (RSP_JOIN_ROOM room bottom_cards syncInfo) = Done g3"
      "players g3 = ?ps"
    by blast
  show ?thesis
    using g3 assms(1) create_local[of P lu ln ob]
    by (simp add: Let_def updateInfo_def)
qed

text \<open>
  C7 does not hold of the code for a join packet without a room, the case the guard on
  \<open>packet['room']\<close> further down in the handler provides for. The handler first passes
  \<open>packet['room']\<close> to \<open>observer.set('room', ...)\<close>; the title bar, subscribed to \<open>room\<close>
  by \<open>create()\<close>, is called with \<open>undefined\<close> and throws on \<open>room.id\<close>. So the handler
  throws before its loop over the player list: on the created scene, with the list of
  the players 1, 2, 3, the players are those of before the packet, and seats 1 and 2
  have not received the identities 2 and 3. With the room \<open>room_1\<close> the same list is
  assigned as the claim says.
\<close>

theorem join_without_room_throws:
  "map info_uid sync_123 = [1, 2, 3] \<and>
   uid (players g_created ! 0) = 1 \<and>
   onmessage spec_ops g_created (RSP_JOIN_ROOM VUndef None sync_123) =
     Threw TypeError
       (g_created\<lparr>obs := (obs g_created)\<lparr>state := [(wholeName K_room, VUndef)]\<rparr>,
                  notified := [(0, VUndef)]\<rparr>) \<and>
   \<not> returned (onmessage spec_ops g_created (RSP_JOIN_ROOM VUndef None sync_123)) \<and>
   players (after (onmessage spec_ops g_created (RSP_JOIN_ROOM VUndef None sync_123))) =
     players g_created \<and>
   map uid (players (after (onmessage spec_ops g_created (RSP_JOIN_ROOM VUndef None sync_123)))) \<noteq>
     [1, 2, 3] \<and>
   returned (onmessage spec_ops g_created (RSP_JOIN_ROOM room_1 None sync_123)) \<and>
   map uid (players (after (onmessage spec_ops g_created (RSP_JOIN_ROOM room_1 None sync_123)))) =
     [1, 2, 3]"
  by code_simp

end
